theory Spec2Isabelle
  imports Complex_Main "HOL-Library.Sublist"
begin

section \<open>Values shared by the components\<close>

text \<open>
  The extension is written in JavaScript. Timestamps are the integer milliseconds of
  \<^verbatim>\<open>Date.now()\<close>; every function that reads the clock takes the reading as the
  argument \<open>now\<close>. Scores, weights and percentages are JavaScript numbers, that is
  IEEE doubles: a number is the real that the double denotes, and the arithmetic of
  the readiness calculator rounds each result to the nearest double (the NaN and
  infinity of doubles are left out). Counts of milliseconds are integers, on which the
  sum of doubles is exact below \<open>2 ^ 53\<close>; a percentage of scroll is only compared and
  stored. Strings are lists of 8-bit characters.
\<close>

text \<open>\<^verbatim>\<open>x || d\<close> on a number: the default is taken when \<open>x\<close> is absent or zero.\<close>

definition num_or :: "'a::zero option \<Rightarrow> 'a \<Rightarrow> 'a" where
  "num_or x d = (case x of None \<Rightarrow> d | Some v \<Rightarrow> if v = 0 then d else v)"

text \<open>\<^verbatim>\<open>x ?? d\<close>: the default is taken only when \<open>x\<close> is absent.\<close>

definition nullish_or :: "'a option \<Rightarrow> 'a \<Rightarrow> 'a" where
  "nullish_or x d = (case x of None \<Rightarrow> d | Some v \<Rightarrow> v)"

text \<open>Decimal rendering of a number inside a template literal.\<close>

definition digit_char :: "nat \<Rightarrow> char" where
  "digit_char d = ''0123456789'' ! (d mod 10)"

function showNat :: "nat \<Rightarrow> string" where
  "showNat n = (if n < 10 then [digit_char n] else showNat (n div 10) @ [digit_char (n mod 10)])"
  by pat_completeness auto
termination
  by (relation "measure (\<lambda>n. n)") auto

declare showNat.simps [simp del]

section \<open>JavaScript numbers\<close>

text \<open>
  A JavaScript number is an IEEE 754 binary64 value. A finite double is modelled by the
  real it denotes, and an arithmetic operation returns the exact result rounded to the
  nearest double, ties going to the even significand. NaN, the infinities (a result too
  large for a double) and the sign of zero are left out.
\<close>

text \<open>The nearest integer, a tie going to the even one.\<close>

definition round_half_even :: "real \<Rightarrow> int" where
  "round_half_even q =
     (let f = \<lfloor>q\<rfloor>; r = q - of_int f
      in if r < 1 / 2 then f else if r > 1 / 2 then f + 1 else if even f then f else f + 1)"

text \<open>The exponent \<open>e\<close> with \<open>2 ^ e \<le> x < 2 ^ (e + 1)\<close>, for a positive \<open>x\<close>.\<close>

function binade :: "real \<Rightarrow> int" where
  "binade x =
     (if x \<le> 0 then 0
      else if x \<ge> 2 then binade (x / 2) + 1
      else if x < 1 then binade (x * 2) - 1
      else 0)"
  by pat_completeness auto
termination
proof (relation "measure (\<lambda>x. if x \<ge> 1 then nat \<lfloor>x\<rfloor> else nat \<lfloor>1 / x\<rfloor> + 2)")
  show "wf (measure (\<lambda>x::real. if x \<ge> 1 then nat \<lfloor>x\<rfloor> else nat \<lfloor>1 / x\<rfloor> + 2))" by simp
next
  fix x :: real
  assume "\<not> x \<le> 0" "2 \<le> x"
  then have "\<lfloor>x / 2\<rfloor> < \<lfloor>x\<rfloor>" by linarith
  moreover have "0 \<le> \<lfloor>x / 2\<rfloor>" using \<open>2 \<le> x\<close> by simp
  ultimately show "(x / 2, x) \<in> measure (\<lambda>x. if x \<ge> 1 then nat \<lfloor>x\<rfloor> else nat \<lfloor>1 / x\<rfloor> + 2)"
    using \<open>2 \<le> x\<close> by simp
next
  fix x :: real
  assume a: "\<not> x \<le> 0" "\<not> 2 \<le> x" "x < 1"
  show "(x * 2, x) \<in> measure (\<lambda>x. if x \<ge> 1 then nat \<lfloor>x\<rfloor> else nat \<lfloor>1 / x\<rfloor> + 2)"
  proof (cases "x * 2 \<ge> 1")
    case True
    then have "\<lfloor>x * 2\<rfloor> = 1" using a by linarith
    then show ?thesis using a True by simp
  next
    case False
    then have "1 / x > 2" using a by (simp add: field_simps)
    have "1 / (x * 2) = (1 / x) / 2" by simp
    then have "\<lfloor>1 / (x * 2)\<rfloor> < \<lfloor>1 / x\<rfloor>" using \<open>1 / x > 2\<close> by linarith
    moreover have "0 \<le> \<lfloor>1 / (x * 2)\<rfloor>" using a by simp
    ultimately show ?thesis using a False by simp
  qed
qed

declare binade.simps [simp del]

text \<open>
  The doubles around \<open>x\<close> are the multiples of \<open>2 ^ ulp_exponent x\<close>: 53 significant bits
  for a normal number, and the fixed spacing \<open>2 ^ - 1074\<close> for a subnormal one.
\<close>

definition ulp_exponent :: "real \<Rightarrow> int" where
  "ulp_exponent x = max (binade \<bar>x\<bar> - 52) (- 1074)"

text \<open>
  The double nearest to a real. A decimal literal of the source or of the policy
  document, such as \<^verbatim>\<open>0.35\<close>, denotes \<open>to_double (35 / 100)\<close>.
\<close>

definition to_double :: "real \<Rightarrow> real" where
  "to_double x =
     of_int (round_half_even (x / 2 powi ulp_exponent x)) * 2 powi ulp_exponent x"

definition fadd :: "real \<Rightarrow> real \<Rightarrow> real" where
  "fadd x y = to_double (x + y)"

definition fsub :: "real \<Rightarrow> real \<Rightarrow> real" where
  "fsub x y = to_double (x - y)"

definition fmul :: "real \<Rightarrow> real \<Rightarrow> real" where
  "fmul x y = to_double (x * y)"

definition fdiv :: "real \<Rightarrow> real \<Rightarrow> real" where
  "fdiv x y = to_double (x / y)"

text \<open>\<^verbatim>\<open>Math.round\<close>: the nearest integer, a tie going upwards.\<close>

definition jsRound :: "real \<Rightarrow> int" where
  "jsRound x = \<lfloor>x + 1 / 2\<rfloor>"

section \<open>StateManager: the per-PR session state\<close>

record diff_metrics =
  diff_time_ms :: real
  diff_scroll_max_pct :: real

record nudge_shown =
  ns_timestamp :: int
  ns_tier :: nat

record checkpoint_entry =
  cp_timestamp :: int
  cp_kind :: string
  cp_result :: string

text \<open>The object built by \<^verbatim>\<open>createFreshState\<close>, field by field.\<close>

record session_state =
  prId :: string
  sessionId :: string
  prLoadTime :: int
  lastActive :: int
  owner :: string
  repo :: string
  prNumber :: nat
  tabsViewed :: "string list"
  checksViewed :: bool
  diffMetrics :: diff_metrics
  nudgesShown :: "string \<rightharpoonup> nudge_shown"
  checkpointHistory :: "checkpoint_entry list"
  version :: string

text \<open>The result of \<^verbatim>\<open>parsePRFromURL\<close> when the URL is a pull-request URL.\<close>

record pr_info =
  pi_owner :: string
  pi_repo :: string
  pi_prNumber :: nat

text \<open>The argument of \<^verbatim>\<open>updateDiffMetrics\<close>: an object holding some of the metrics.\<close>

record partial_metrics =
  pm_diff_time_ms :: "real option"
  pm_diff_scroll_max_pct :: "real option"

text \<open>
  The manager object: \<open>storage\<close> is the part of the key-value store that holds the
  \<^verbatim>\<open>state:<prId>\<close> entries, \<open>currentState\<close> and \<open>mgr_prId\<close> are \<^verbatim>\<open>null\<close> when \<open>None\<close>.
\<close>

record state_manager =
  storage :: "string \<rightharpoonup> session_state"
  mgr_sessionId :: string
  currentState :: "session_state option"
  mgr_prId :: "string option"

definition state_key :: "string \<Rightarrow> string" where
  "state_key p = ''state:'' @ p"

definition save :: "int \<Rightarrow> state_manager \<Rightarrow> state_manager" where
  "save now m =
     (case currentState m of
        None \<Rightarrow> m
      | Some s \<Rightarrow>
          (case mgr_prId m of
             None \<Rightarrow> m
           | Some p \<Rightarrow>
               if p = [] then m
               else (let s' = s\<lparr>lastActive := now\<rparr>
                     in m\<lparr>currentState := Some s', storage := (storage m)(state_key p \<mapsto> s')\<rparr>)))"

definition createFreshState :: "int \<Rightarrow> pr_info \<Rightarrow> state_manager \<Rightarrow> session_state" where
  "createFreshState now info m =
     \<lparr>prId = (case mgr_prId m of None \<Rightarrow> [] | Some p \<Rightarrow> p),
      sessionId = mgr_sessionId m,
      prLoadTime = now,
      lastActive = now,
      owner = pi_owner info,
      repo = pi_repo info,
      prNumber = pi_prNumber info,
      tabsViewed = [],
      checksViewed = False,
      diffMetrics = \<lparr>diff_time_ms = 0, diff_scroll_max_pct = 0\<rparr>,
      nudgesShown = Map.empty,
      checkpointHistory = [],
      version = ''1.0.0''\<rparr>"

text \<open>
  \<^verbatim>\<open>isValidState\<close>: the two tests on the shape of \<^verbatim>\<open>tabsViewed\<close> and \<^verbatim>\<open>diffMetrics\<close> hold
  of every value of the record type, so the tests on \<open>prId\<close> and \<open>version\<close> remain.
\<close>

definition isValidState :: "session_state \<Rightarrow> bool" where
  "isValidState s = (prId s \<noteq> [] \<and> version s = ''1.0.0'')"

definition initialize :: "int \<Rightarrow> pr_info option \<Rightarrow> state_manager \<Rightarrow> state_manager" where
  "initialize now parsed m =
     (case parsed of
        None \<Rightarrow> m\<lparr>currentState := None, mgr_prId := None\<rparr>
      | Some info \<Rightarrow>
          (let p = pi_owner info @ ''/'' @ pi_repo info @ ''/'' @ showNat (pi_prNumber info);
               m1 = m\<lparr>mgr_prId := Some p\<rparr>;
               m2 = (case storage m1 (state_key p) of
                       None \<Rightarrow> m1\<lparr>currentState := Some (createFreshState now info m1)\<rparr>
                     | Some existing \<Rightarrow>
                         if isValidState existing
                         then m1\<lparr>currentState :=
                                 Some (existing\<lparr>sessionId := mgr_sessionId m1, lastActive := now\<rparr>)\<rparr>
                         else m1\<lparr>currentState := Some (createFreshState now info m1)\<rparr>)
           in save now m2))"

definition recordTabView :: "int \<Rightarrow> string \<Rightarrow> state_manager \<Rightarrow> state_manager" where
  "recordTabView now tab m =
     (case currentState m of
        None \<Rightarrow> m
      | Some s \<Rightarrow>
          if tab \<in> set (tabsViewed s) then m
          else save now (m\<lparr>currentState := Some (s\<lparr>tabsViewed := tabsViewed s @ [tab]\<rparr>)\<rparr>))"

definition recordChecksViewed :: "int \<Rightarrow> state_manager \<Rightarrow> state_manager" where
  "recordChecksViewed now m =
     (case currentState m of
        None \<Rightarrow> m
      | Some s \<Rightarrow>
          if checksViewed s then m
          else save now (m\<lparr>currentState := Some (s\<lparr>checksViewed := True\<rparr>)\<rparr>))"

definition addDiffTime :: "int \<Rightarrow> real \<Rightarrow> state_manager \<Rightarrow> state_manager" where
  "addDiffTime now ms m =
     (case currentState m of
        None \<Rightarrow> m
      | Some s \<Rightarrow>
          save now (m\<lparr>currentState :=
            Some (s\<lparr>diffMetrics := (diffMetrics s)\<lparr>diff_time_ms := diff_time_ms (diffMetrics s) + ms\<rparr>\<rparr>)\<rparr>))"

definition updateScrollMax :: "int \<Rightarrow> real \<Rightarrow> state_manager \<Rightarrow> state_manager" where
  "updateScrollMax now pct m =
     (case currentState m of
        None \<Rightarrow> m
      | Some s \<Rightarrow>
          save now (m\<lparr>currentState :=
            Some (s\<lparr>diffMetrics := (diffMetrics s)\<lparr>diff_scroll_max_pct :=
                       max (diff_scroll_max_pct (diffMetrics s)) pct\<rparr>\<rparr>)\<rparr>))"

definition updateDiffMetrics :: "int \<Rightarrow> partial_metrics \<Rightarrow> state_manager \<Rightarrow> state_manager" where
  "updateDiffMetrics now metrics m =
     (case currentState m of
        None \<Rightarrow> m
      | Some s \<Rightarrow>
          save now (m\<lparr>currentState :=
            Some (s\<lparr>diffMetrics :=
              \<lparr>diff_time_ms = nullish_or (pm_diff_time_ms metrics) (diff_time_ms (diffMetrics s)),
               diff_scroll_max_pct =
                 nullish_or (pm_diff_scroll_max_pct metrics) (diff_scroll_max_pct (diffMetrics s))\<rparr>\<rparr>)\<rparr>))"

definition recordNudgeShown :: "int \<Rightarrow> string \<Rightarrow> nat \<Rightarrow> state_manager \<Rightarrow> state_manager" where
  "recordNudgeShown now type tier m =
     (case currentState m of
        None \<Rightarrow> m
      | Some s \<Rightarrow>
          save now (m\<lparr>currentState :=
            Some (s\<lparr>nudgesShown := (nudgesShown s)(type \<mapsto> \<lparr>ns_timestamp = now, ns_tier = tier\<rparr>)\<rparr>)\<rparr>))"

text \<open>\<^verbatim>\<open>push\<close> appends at the end; \<^verbatim>\<open>shift\<close> removes the first element.\<close>

definition recordCheckpoint :: "int \<Rightarrow> string \<Rightarrow> string \<Rightarrow> state_manager \<Rightarrow> state_manager" where
  "recordCheckpoint now kind result m =
     (case currentState m of
        None \<Rightarrow> m
      | Some s \<Rightarrow>
          (let pushed = checkpointHistory s @ [\<lparr>cp_timestamp = now, cp_kind = kind, cp_result = result\<rparr>];
               kept = (if length pushed > 10 then tl pushed else pushed)
           in save now (m\<lparr>currentState := Some (s\<lparr>checkpointHistory := kept\<rparr>)\<rparr>)))"

text \<open>\<^verbatim>\<open>reset\<close> draws a new session identifier; the drawn value is the argument.\<close>

definition reset :: "string \<Rightarrow> state_manager \<Rightarrow> state_manager" where
  "reset newId m = m\<lparr>currentState := None, mgr_prId := None, mgr_sessionId := newId\<rparr>"

definition clearAll :: "string \<Rightarrow> state_manager \<Rightarrow> state_manager" where
  "clearAll newId m =
     reset newId (m\<lparr>storage := (\<lambda>k. if prefix ''state:'' k then None else storage m k)\<rparr>)"

text \<open>Every operation of the manager that changes or persists the session state.\<close>

datatype operation =
    Initialize "pr_info option"
  | Save
  | RecordTabView string
  | RecordChecksViewed
  | AddDiffTime real
  | UpdateScrollMax real
  | UpdateDiffMetrics partial_metrics
  | RecordNudgeShown string nat
  | RecordCheckpoint string string
  | Reset string
  | ClearAll string

fun perform :: "int \<Rightarrow> operation \<Rightarrow> state_manager \<Rightarrow> state_manager" where
  "perform now (Initialize parsed) m = initialize now parsed m"
| "perform now Save m = save now m"
| "perform now (RecordTabView tab) m = recordTabView now tab m"
| "perform now RecordChecksViewed m = recordChecksViewed now m"
| "perform now (AddDiffTime ms) m = addDiffTime now ms m"
| "perform now (UpdateScrollMax pct) m = updateScrollMax now pct m"
| "perform now (UpdateDiffMetrics metrics) m = updateDiffMetrics now metrics m"
| "perform now (RecordNudgeShown type tier) m = recordNudgeShown now type tier m"
| "perform now (RecordCheckpoint kind result) m = recordCheckpoint now kind result m"
| "perform now (Reset newId) m = reset newId m"
| "perform now (ClearAll newId) m = clearAll newId m"

text \<open>
  The bound of the data model on the history, for the state in memory and for every
  persisted copy.
\<close>

definition history_bounded :: "state_manager \<Rightarrow> bool" where
  "history_bounded m =
     ((\<forall>s. currentState m = Some s \<longrightarrow> length (checkpointHistory s) \<le> 10) \<and>
      (\<forall>k s. storage m k = Some s \<longrightarrow> length (checkpointHistory s) \<le> 10))"

text \<open>A manager holding a session whose history is full, used to run the operations.\<close>

definition sample_history :: "checkpoint_entry list" where
  "sample_history =
     map (\<lambda>t. \<lparr>cp_timestamp = t, cp_kind = ''MERGE_NOW'', cp_result = ''completed''\<rparr>)
       [1, 2, 3, 4, 5, 6, 7, 8, 9, 10]"

definition sample_state :: session_state where
  "sample_state =
     \<lparr>prId = ''octo/repo/7'', sessionId = ''s1'', prLoadTime = 0, lastActive = 10,
      owner = ''octo'', repo = ''repo'', prNumber = 7, tabsViewed = [''files''],
      checksViewed = True, diffMetrics = \<lparr>diff_time_ms = 0, diff_scroll_max_pct = 40\<rparr>,
      nudgesShown = Map.empty, checkpointHistory = sample_history, version = ''1.0.0''\<rparr>"

definition sample_manager :: state_manager where
  "sample_manager =
     \<lparr>storage = Map.empty, mgr_sessionId = ''s1'', currentState = Some sample_state,
      mgr_prId = Some ''octo/repo/7''\<rparr>"

section \<open>PolicyLoader: the policy document and its getters\<close>

record kind_config =
  patterns :: "string list"
  description :: string

text \<open>
  \<open>kinds\<close> lists the members of the \<^verbatim>\<open>kinds\<close> object in the order in which the
  policy document declares them; the object that they build and the order in which
  \<^verbatim>\<open>Object.entries\<close> enumerates it are \<open>object_of\<close> and \<open>object_entries\<close> below. An
  absent object is \<open>None\<close>. A decimal literal of the document, such as \<^verbatim>\<open>0.35\<close>, is
  the double nearest to it, \<open>to_double (35 / 100)\<close>.
\<close>

record checkpoint_matchers =
  scope_selector :: "string option"
  kinds :: "(string \<times> kind_config) list option"

record signal_weights =
  files_changed :: "real option"
  checks_viewed :: "real option"
  diff_time_target_ms :: "real option"
  diff_time_max :: "real option"
  scroll_depth :: "real option"
  conversation_viewed :: "real option"
  min_time_before_merge_ms :: "real option"
  early_merge_penalty :: "real option"

record nudge_thresholds =
  signals :: signal_weights
  tier1_min :: "real option"
  tier2_min :: "real option"

record cooldown_config =
  proactive_nudge_ms :: "int option"
  premerge_reset_after_review_ms :: "int option"
  token_ttl_ms :: "int option"

record tier3_template =
  title_template :: "string option"
  title :: "string option"
  subtitle_template :: "string option"
  subtitle :: "string option"
  checklist :: "string list option"
  confirmation_text :: "string option"

text \<open>
  The policy document. Every getter of the loader replaces an absent sub-object by the
  empty object, so a sub-object is a record of optional fields and the absent one has
  every field \<open>None\<close>. \<open>tier3_templates\<close> is \<^verbatim>\<open>ui_templates.tier3\<close>.
\<close>

record policy =
  policy_version :: string
  checkpoint_matchers :: checkpoint_matchers
  nudge_thresholds :: nudge_thresholds
  cooldowns :: cooldown_config
  tier3_templates :: "(string \<times> tier3_template) list"

definition no_matchers :: checkpoint_matchers where
  "no_matchers = \<lparr>scope_selector = None, kinds = None\<rparr>"

definition no_signals :: signal_weights where
  "no_signals =
     \<lparr>files_changed = None, checks_viewed = None, diff_time_target_ms = None,
      diff_time_max = None, scroll_depth = None, conversation_viewed = None,
      min_time_before_merge_ms = None, early_merge_penalty = None\<rparr>"

definition no_thresholds :: nudge_thresholds where
  "no_thresholds = \<lparr>signals = no_signals, tier1_min = None, tier2_min = None\<rparr>"

definition no_cooldowns :: cooldown_config where
  "no_cooldowns =
     \<lparr>proactive_nudge_ms = None, premerge_reset_after_review_ms = None, token_ttl_ms = None\<rparr>"

text \<open>The loader holds \<^verbatim>\<open>this.policy\<close>, which is \<^verbatim>\<open>null\<close> before \<^verbatim>\<open>load\<close>.\<close>

definition getCheckpointMatchers :: "policy option \<Rightarrow> checkpoint_matchers" where
  "getCheckpointMatchers pol = (case pol of None \<Rightarrow> no_matchers | Some p \<Rightarrow> checkpoint_matchers p)"

definition getNudgeThresholds :: "policy option \<Rightarrow> nudge_thresholds" where
  "getNudgeThresholds pol = (case pol of None \<Rightarrow> no_thresholds | Some p \<Rightarrow> nudge_thresholds p)"

definition getCooldowns :: "policy option \<Rightarrow> cooldown_config" where
  "getCooldowns pol = (case pol of None \<Rightarrow> no_cooldowns | Some p \<Rightarrow> cooldowns p)"

definition getTier3Template :: "policy option \<Rightarrow> string \<Rightarrow> tier3_template option" where
  "getTier3Template pol kind = (case pol of None \<Rightarrow> None | Some p \<Rightarrow> map_of (tier3_templates p) kind)"

definition getFallbackPolicy :: policy where
  "getFallbackPolicy =
     \<lparr>policy_version = ''1.0.0-fallback'',
      checkpoint_matchers =
        \<lparr>scope_selector = Some ''.merge-box, [data-testid=\"mergebox\"]'',
         kinds = Some
           [(''MERGE_NOW'',
               \<lparr>patterns = [''Confirm merge'', ''Merge pull request''],
                description = ''Immediate merge''\<rparr>),
            (''AUTO_MERGE_ENABLE'',
               \<lparr>patterns = [''Enable auto-merge''], description = ''Auto-merge''\<rparr>),
            (''MERGE_QUEUE_ADD'',
               \<lparr>patterns = [''Add to merge queue'', ''Merge when ready''],
                description = ''Merge queue''\<rparr>)]\<rparr>,
      nudge_thresholds =
        \<lparr>signals =
           \<lparr>files_changed = Some (to_double (35 / 100)), checks_viewed = Some (to_double (25 / 100)),
            diff_time_target_ms = Some 60000, diff_time_max = Some (to_double (20 / 100)),
            scroll_depth = Some (to_double (10 / 100)), conversation_viewed = Some (to_double (10 / 100)),
            min_time_before_merge_ms = Some 30000, early_merge_penalty = Some (to_double (25 / 100))\<rparr>,
         tier1_min = Some (to_double (70 / 100)), tier2_min = Some (to_double (45 / 100))\<rparr>,
      cooldowns =
        \<lparr>proactive_nudge_ms = Some 600000, premerge_reset_after_review_ms = Some 300000,
         token_ttl_ms = Some 5000\<rparr>,
      tier3_templates =
        [(''MERGE_NOW'',
            \<lparr>title_template = Some ''Confirm {method} now'', title = None,
             subtitle_template = Some ''This will merge into {base_branch} immediately.'',
             subtitle = None,
             checklist = Some
               [''I visited \"Files changed\" and reviewed the diff.'',
                ''I checked CI/status checks.'',
                ''I can restate what this merges into.''],
             confirmation_text = Some ''MERGE''\<rparr>),
         (''AUTO_MERGE_ENABLE'',
            \<lparr>title_template = None, title = Some ''Enable auto-merge'',
             subtitle_template = None,
             subtitle = Some ''This will merge automatically when checks pass.'',
             checklist = Some
               [''I understand this will merge later.'',
                ''I checked required checks.'',
                ''I will monitor the result.''],
             confirmation_text = Some ''MERGE''\<rparr>),
         (''MERGE_QUEUE_ADD'',
            \<lparr>title_template = None, title = Some ''Add to merge queue'',
             subtitle_template = None,
             subtitle = Some ''This schedules a merge when queue rules allow.'',
             checklist = Some
               [''I understand this schedules a merge.'',
                ''I checked this PR is ready.'',
                ''I will monitor the outcome.''],
             confirmation_text = Some ''MERGE''\<rparr>)]\<rparr>"

section \<open>CooldownManager: nudge cooldowns and allow tokens\<close>

text \<open>
  An object kept in the key-value store by the cooldown manager. Every such object has a
  \<open>timestamp\<close>; \<open>ttl\<close> and \<open>used\<close> are the fields of an allow token, \<open>st_tier\<close>, \<open>st_action\<close>
  and \<open>st_score\<close> those of the nudge records. A field the object does not have reads as
  \<^verbatim>\<open>undefined\<close>: \<open>None\<close>, and \<open>False\<close> for the flag \<open>used\<close>.
\<close>

record stored =
  timestamp :: int
  ttl :: "int option"
  used :: bool
  st_tier :: "nat option"
  st_action :: "string option"
  st_score :: "real option"

text \<open>
  The manager: its part of the store, the policy loader it was built with, and the
  removals scheduled by \<^verbatim>\<open>setTimeout\<close>, each with the time at which it is due.
\<close>

record cooldown_manager =
  cm_storage :: "string \<rightharpoonup> stored"
  cm_policy :: "policy option"
  cm_timers :: "(int \<times> string) list"

definition proactive_key :: "string \<Rightarrow> string" where
  "proactive_key p = ''nudge_proactive_'' @ p"

definition premerge_key :: "string \<Rightarrow> string" where
  "premerge_key p = ''nudge_premerge_'' @ p"

definition review_key :: "string \<Rightarrow> string" where
  "review_key p = ''review_'' @ p"

definition token_key :: "string \<Rightarrow> string \<Rightarrow> string" where
  "token_key p e = ''allow_token_'' @ p @ ''_'' @ e"

definition shouldShowProactiveNudge :: "int \<Rightarrow> string \<Rightarrow> cooldown_manager \<Rightarrow> bool" where
  "shouldShowProactiveNudge now p cm =
     (case cm_storage cm (proactive_key p) of
        None \<Rightarrow> True
      | Some record \<Rightarrow>
          (let elapsed = now - timestamp record
           in elapsed > num_or (proactive_nudge_ms (getCooldowns (cm_policy cm))) 600000))"

definition recordProactiveNudge :: "int \<Rightarrow> string \<Rightarrow> real \<Rightarrow> cooldown_manager \<Rightarrow> cooldown_manager" where
  "recordProactiveNudge now p score cm =
     cm\<lparr>cm_storage := (cm_storage cm)(proactive_key p \<mapsto>
           \<lparr>timestamp = now, ttl = None, used = False, st_tier = None, st_action = None,
            st_score = Some score\<rparr>)\<rparr>"

definition shouldShowPremergeNudge :: "string \<Rightarrow> cooldown_manager \<Rightarrow> bool" where
  "shouldShowPremergeNudge p cm =
     (case cm_storage cm (premerge_key p) of
        None \<Rightarrow> True
      | Some record \<Rightarrow>
          (case cm_storage cm (review_key p) of
             None \<Rightarrow> False
           | Some lastReview \<Rightarrow>
               if timestamp lastReview > timestamp record then True else False))"

definition recordPremergeNudge :: "int \<Rightarrow> string \<Rightarrow> nat \<Rightarrow> string \<Rightarrow> cooldown_manager \<Rightarrow> cooldown_manager" where
  "recordPremergeNudge now p tier action cm =
     cm\<lparr>cm_storage := (cm_storage cm)(premerge_key p \<mapsto>
           \<lparr>timestamp = now, ttl = None, used = False, st_tier = Some tier,
            st_action = Some action, st_score = None\<rparr>)\<rparr>"

definition recordReview :: "int \<Rightarrow> string \<Rightarrow> cooldown_manager \<Rightarrow> cooldown_manager" where
  "recordReview now p cm =
     cm\<lparr>cm_storage := (cm_storage cm)(review_key p \<mapsto>
           \<lparr>timestamp = now, ttl = None, used = False, st_tier = None, st_action = None,
            st_score = None\<rparr>)\<rparr>"

definition createAllowToken :: "int \<Rightarrow> string \<Rightarrow> string \<Rightarrow> cooldown_manager \<Rightarrow> cooldown_manager" where
  "createAllowToken now p e cm =
     cm\<lparr>cm_storage := (cm_storage cm)(token_key p e \<mapsto>
           \<lparr>timestamp = now,
            ttl = Some (num_or (token_ttl_ms (getCooldowns (cm_policy cm))) 5000),
            used = False, st_tier = None, st_action = None, st_score = None\<rparr>)\<rparr>"

text \<open>
  A comparison with \<^verbatim>\<open>undefined\<close> is false, so an object without \<open>ttl\<close> never expires.
\<close>

definition hasValidToken :: "int \<Rightarrow> string \<Rightarrow> string \<Rightarrow> cooldown_manager \<Rightarrow> bool" where
  "hasValidToken now p e cm =
     (case cm_storage cm (token_key p e) of
        None \<Rightarrow> False
      | Some token \<Rightarrow>
          if used token then False
          else (let elapsed = now - timestamp token
                in if (case ttl token of None \<Rightarrow> False | Some d \<Rightarrow> elapsed > d) then False
                   else True))"

definition consumeToken :: "int \<Rightarrow> string \<Rightarrow> string \<Rightarrow> cooldown_manager \<Rightarrow> cooldown_manager" where
  "consumeToken now p e cm =
     (case cm_storage cm (token_key p e) of
        None \<Rightarrow> cm
      | Some token \<Rightarrow>
          cm\<lparr>cm_storage := (cm_storage cm)(token_key p e \<mapsto> token\<lparr>used := True\<rparr>),
             cm_timers := cm_timers cm @ [(now + 100, token_key p e)]\<rparr>)"

text \<open>The scheduled removals that are due at \<open>now\<close> run: each removes its key.\<close>

definition run_timers :: "int \<Rightarrow> cooldown_manager \<Rightarrow> cooldown_manager" where
  "run_timers now cm =
     cm\<lparr>cm_storage :=
          (\<lambda>k. if k \<in> set (map snd (filter (\<lambda>t. fst t \<le> now) (cm_timers cm))) then None
               else cm_storage cm k),
        cm_timers := filter (\<lambda>t. \<not> fst t \<le> now) (cm_timers cm)\<rparr>"

definition clearForPR :: "string \<Rightarrow> cooldown_manager \<Rightarrow> cooldown_manager" where
  "clearForPR p cm =
     cm\<lparr>cm_storage := (\<lambda>k. if k \<in> {proactive_key p, premerge_key p, review_key p} then None
                           else cm_storage cm k)\<rparr>"

definition fresh_cooldowns :: cooldown_manager where
  "fresh_cooldowns =
     \<lparr>cm_storage = Map.empty, cm_policy = Some getFallbackPolicy, cm_timers = []\<rparr>"


section \<open>ReadinessCalculator\<close>

text \<open>The object returned by \<^verbatim>\<open>calculate\<close>; the \<open>rs_raw\<close> fields are its \<^verbatim>\<open>raw\<close> part.\<close>

record readiness =
  rs_score :: real
  rs_tier :: nat
  rs_reasons :: "string list"
  rs_positive :: "string list"
  rs_raw_diff_time_ms :: real
  rs_raw_scroll_pct :: real
  rs_raw_tabs :: "string list"
  rs_raw_time_since_load :: int

text \<open>\<^verbatim>\<open>Math.round(x * 100) / 100\<close>, the product and the quotient rounded as doubles.\<close>

definition roundTo2 :: "real \<Rightarrow> real" where
  "roundTo2 x = fdiv (of_int (jsRound (fmul x 100))) 100"

text \<open>
  \<^verbatim>\<open>Date.now() - (state.prLoadTime || Date.now())\<close>; the timestamps are integers, on
  which the subtraction of doubles is exact.
\<close>

definition timeSinceLoad :: "int \<Rightarrow> session_state \<Rightarrow> int" where
  "timeSinceLoad now state = now - (if prLoadTime state = 0 then now else prLoadTime state)"

definition diffTimeScore :: "policy option \<Rightarrow> session_state \<Rightarrow> real" where
  "diffTimeScore pol state =
     (let sg = signals (getNudgeThresholds pol);
          diffTime = diff_time_ms (diffMetrics state);
          diffTimeTarget = num_or (diff_time_target_ms sg) 60000;
          diffTimeMax = num_or (diff_time_max sg) (to_double (20 / 100))
      in fmul (min (fdiv diffTime diffTimeTarget) 1) diffTimeMax)"

text \<open>
  The variable \<^verbatim>\<open>score\<close> of \<^verbatim>\<open>calculate\<close> after the positive and the negative
  signals, before it is clamped: each \<^verbatim>\<open>+=\<close> and \<^verbatim>\<open>-=\<close> of the source is one rounded
  operation, in the order of the source.
\<close>

definition signalSum :: "policy option \<Rightarrow> int \<Rightarrow> session_state \<Rightarrow> real" where
  "signalSum pol now state =
     (let sg = signals (getNudgeThresholds pol);
          score0 = 0;
          score1 = (if ''files'' \<in> set (tabsViewed state)
                    then fadd score0 (num_or (files_changed sg) (to_double (35 / 100)))
                    else score0);
          score2 = (if checksViewed state
                    then fadd score1 (num_or (checks_viewed sg) (to_double (25 / 100)))
                    else score1);
          score3 = fadd score2 (diffTimeScore pol state);
          score4 = (if diff_scroll_max_pct (diffMetrics state) \<ge> 50
                    then fadd score3 (num_or (scroll_depth sg) (to_double (10 / 100)))
                    else score3);
          score5 = (if ''conversation'' \<in> set (tabsViewed state)
                    then fadd score4 (num_or (conversation_viewed sg) (to_double (10 / 100)))
                    else score4);
          minTime = num_or (min_time_before_merge_ms sg) 30000
      in if real_of_int (timeSinceLoad now state) < minTime
         then fsub score5 (num_or (early_merge_penalty sg) (to_double (25 / 100)))
         else score5)"

definition positiveSignals :: "policy option \<Rightarrow> session_state \<Rightarrow> string list" where
  "positiveSignals pol state =
     (if ''files'' \<in> set (tabsViewed state) then [''files_changed''] else []) @
     (if checksViewed state then [''checks_viewed''] else []) @
     (if diffTimeScore pol state
           \<ge> fmul (num_or (diff_time_max (signals (getNudgeThresholds pol))) (to_double (20 / 100)))
                 (to_double (9 / 10))
      then [''sufficient_diff_time''] else []) @
     (if diff_scroll_max_pct (diffMetrics state) \<ge> 50 then [''good_scroll_depth''] else []) @
     (if ''conversation'' \<in> set (tabsViewed state) then [''conversation_viewed''] else [])"

definition missingReasons :: "policy option \<Rightarrow> int \<Rightarrow> session_state \<Rightarrow> string list" where
  "missingReasons pol now state =
     (if ''files'' \<in> set (tabsViewed state) then [] else [''files_not_viewed'']) @
     (if checksViewed state then [] else [''checks_not_viewed'']) @
     (if diffTimeScore pol state
           \<ge> fmul (num_or (diff_time_max (signals (getNudgeThresholds pol))) (to_double (20 / 100)))
                 (to_double (9 / 10))
      then [] else [''insufficient_diff_time'']) @
     (if diff_scroll_max_pct (diffMetrics state) \<ge> 50 then [] else [''low_scroll_depth'']) @
     (if real_of_int (timeSinceLoad now state)
           < num_or (min_time_before_merge_ms (signals (getNudgeThresholds pol))) 30000
      then [''merge_too_fast''] else [])"

text \<open>\<^verbatim>\<open>Math.max(0, Math.min(1, score))\<close>.\<close>

definition clampScore :: "real \<Rightarrow> real" where
  "clampScore score = max 0 (min 1 score)"

definition tier1Min :: "policy option \<Rightarrow> real" where
  "tier1Min pol = nullish_or (tier1_min (getNudgeThresholds pol)) (to_double (70 / 100))"

definition tier2Min :: "policy option \<Rightarrow> real" where
  "tier2Min pol = nullish_or (tier2_min (getNudgeThresholds pol)) (to_double (45 / 100))"

definition tierFor :: "policy option \<Rightarrow> real \<Rightarrow> nat" where
  "tierFor pol score =
     (if score \<ge> tier1Min pol then 0 else if score \<ge> tier2Min pol then 1 else 2)"

text \<open>The tier is taken from the clamped score; only the returned score is rounded.\<close>

definition calculate :: "policy option \<Rightarrow> int \<Rightarrow> session_state \<Rightarrow> readiness" where
  "calculate pol now state =
     (let score = clampScore (signalSum pol now state)
      in \<lparr>rs_score = roundTo2 score,
          rs_tier = tierFor pol score,
          rs_reasons = missingReasons pol now state,
          rs_positive = positiveSignals pol state,
          rs_raw_diff_time_ms = diff_time_ms (diffMetrics state),
          rs_raw_scroll_pct = roundTo2 (diff_scroll_max_pct (diffMetrics state)),
          rs_raw_tabs = tabsViewed state,
          rs_raw_time_since_load = timeSinceLoad now state\<rparr>)"

definition isReady :: "policy option \<Rightarrow> int \<Rightarrow> session_state \<Rightarrow> bool" where
  "isReady pol now state = (rs_tier (calculate pol now state) = 0)"


section \<open>Logger: redaction and the event buffer\<close>

text \<open>A payload value: what a JavaScript value in an event payload can be.\<close>

datatype json =
    JString string
  | JNumber real
  | JBool bool
  | JNull
  | JArray "json list"
  | JObject "(string \<times> json) list"

text \<open>An object is the list of its own properties in enumeration order.\<close>

type_synonym payload = "(string \<times> json) list"

definition sensitiveFields :: "string list" where
  "sensitiveFields =
     [''diff_text'', ''comment_text'', ''code_snippet'', ''patch_content'', ''file_content'',
      ''token'', ''password'', ''api_key'', ''secret'']"

text \<open>\<^verbatim>\<open>delete redacted[field]\<close>.\<close>

definition delete_field :: "string \<Rightarrow> payload \<Rightarrow> payload" where
  "delete_field field obj = filter (\<lambda>kv. fst kv \<noteq> field) obj"

text \<open>The body of the truncation loop for one property value.\<close>

fun truncate_value :: "json \<Rightarrow> json" where
  "truncate_value (JString s) =
     (if length s > 500 then JString (take 500 s @ ''... [truncated]'') else JString s)"
| "truncate_value v = v"

definition redact :: "payload \<Rightarrow> payload" where
  "redact payload =
     (let redacted = fold delete_field sensitiveFields payload
      in map (\<lambda>kv. (fst kv, truncate_value (snd kv))) redacted)"

record log_event =
  ev_v :: string
  ev_ts :: int
  ev_type :: string
  ev_payload :: payload
  ev_policy_version :: string
  ev_extension_version :: string

text \<open>
  The logger with what it reads from its environment: the stored \<^verbatim>\<open>event_buffer\<close>
  (an absent buffer is the empty list), the stored \<^verbatim>\<open>current_policy\<close> and the version of
  the extension manifest.
\<close>

record logger =
  lg_event_buffer :: "log_event list"
  lg_BUFFER_SIZE :: nat
  lg_current_policy :: "policy option"
  lg_manifest_version :: "string option"

definition getPolicyVersion :: "logger \<Rightarrow> string" where
  "getPolicyVersion lg =
     (case lg_current_policy lg of
        None \<Rightarrow> ''unknown''
      | Some p \<Rightarrow> if policy_version p = [] then ''unknown'' else policy_version p)"

definition getExtensionVersion :: "logger \<Rightarrow> string" where
  "getExtensionVersion lg = (case lg_manifest_version lg of None \<Rightarrow> ''unknown'' | Some v \<Rightarrow> v)"

text \<open>\<^verbatim>\<open>while (buffer.length > BUFFER_SIZE) buffer.shift()\<close>.\<close>

function shift_while_over :: "nat \<Rightarrow> 'a list \<Rightarrow> 'a list" where
  "shift_while_over n buffer =
     (if length buffer > n then shift_while_over n (tl buffer) else buffer)"
  by pat_completeness auto
termination
  by (relation "measure (\<lambda>(n, buffer). length buffer)") auto

declare shift_while_over.simps [simp del]

text \<open>\<^verbatim>\<open>log\<close> returns the event and leaves the new buffer in the store.\<close>

definition log :: "int \<Rightarrow> string \<Rightarrow> payload \<Rightarrow> logger \<Rightarrow> log_event \<times> logger" where
  "log now eventType payload lg =
     (let event = \<lparr>ev_v = ''1.0.0'', ev_ts = now, ev_type = eventType,
                   ev_payload = redact payload,
                   ev_policy_version = getPolicyVersion lg,
                   ev_extension_version = getExtensionVersion lg\<rparr>;
          buffer = lg_event_buffer lg @ [event]
      in (event, lg\<lparr>lg_event_buffer := shift_while_over (lg_BUFFER_SIZE lg) buffer\<rparr>))"

definition logCheckpointIntercepted :: "int \<Rightarrow> string \<Rightarrow> string \<Rightarrow> string \<Rightarrow> logger \<Rightarrow> log_event \<times> logger" where
  "logCheckpointIntercepted now kind mergeMethod intentTiming lg =
     log now ''checkpoint_intercepted''
       [(''checkpoint_kind'', JString kind), (''merge_method'', JString mergeMethod),
        (''intent_timing'', JString intentTiming)] lg"

definition logCheckpointCompleted :: "int \<Rightarrow> real \<Rightarrow> logger \<Rightarrow> log_event \<times> logger" where
  "logCheckpointCompleted now timeToCompleteMs lg =
     log now ''checkpoint_completed'' [(''time_to_complete_ms'', JNumber timeToCompleteMs)] lg"

definition logCheckpointAborted :: "int \<Rightarrow> logger \<Rightarrow> log_event \<times> logger" where
  "logCheckpointAborted now lg = log now ''checkpoint_aborted'' [] lg"

definition fresh_logger :: logger where
  "fresh_logger =
     \<lparr>lg_event_buffer = [], lg_BUFFER_SIZE = 1000, lg_current_policy = None,
      lg_manifest_version = Some ''1.0.0''\<rparr>"


section \<open>Strings\<close>

text \<open>
  \<^verbatim>\<open>toUpperCase\<close> and \<^verbatim>\<open>trim\<close> on strings of ASCII characters: the case mapping of
  the letters \<open>a\<close> to \<open>z\<close>, and the white space and line terminators below 256.
\<close>

definition lower_letters :: string where
  "lower_letters = ''abcdefghijklmnopqrstuvwxyz''"

definition upper_letters :: string where
  "upper_letters = ''ABCDEFGHIJKLMNOPQRSTUVWXYZ''"

definition toUpperChar :: "char \<Rightarrow> char" where
  "toUpperChar c = (case map_of (zip lower_letters upper_letters) c of Some u \<Rightarrow> u | None \<Rightarrow> c)"

definition toUpperCase :: "string \<Rightarrow> string" where
  "toUpperCase s = map toUpperChar s"

definition is_space :: "char \<Rightarrow> bool" where
  "is_space c = (c \<in> set [CHR 0x09, CHR 0x0A, CHR 0x0B, CHR 0x0C, CHR 0x0D, CHR '' '', CHR 0xA0])"

definition js_trim :: "string \<Rightarrow> string" where
  "js_trim s = rev (dropWhile is_space (rev (dropWhile is_space s)))"

text \<open>\<^verbatim>\<open>text.includes(p)\<close>: \<open>p\<close> occurs in \<open>text\<close> as a contiguous run.\<close>

fun is_infix :: "'a list \<Rightarrow> 'a list \<Rightarrow> bool" where
  "is_infix p [] = (p = [])"
| "is_infix p (c # cs) = (prefix p (c # cs) \<or> is_infix p cs)"

section \<open>Regular expressions\<close>

text \<open>
  \<^verbatim>\<open>new RegExp(pattern, flags)\<close> either throws a syntax error (\<open>None\<close>) or gives a regular
  expression, of which the code uses \<^verbatim>\<open>test\<close> only. The syntax of patterns and the
  matching of a pattern are the argument \<open>rx\<close> of the functions of the policy loader:
  \<open>rx pattern flags\<close> is \<open>None\<close> when the pattern does not compile and otherwise the
  matcher of the pattern. What is proved for every \<open>rx\<close> holds of the engine of the browser.

  The flag \<open>i\<close> is what the language defines it to be: under it the matcher compares
  canonical characters, a character of the input being replaced by its upper case
  before it is compared (\<^verbatim>\<open>Canonicalize\<close>). So the expression built with the flag hands
  the canonical form of the text to its matcher, and one built without it hands the text.
  The upper case of the model is that of the letters of ASCII; what an engine folds
  beyond them is a function of this form of the text and belongs to the matcher.
\<close>

type_synonym regexp = "string \<Rightarrow> bool"

type_synonym regexp_engine = "string \<Rightarrow> string \<Rightarrow> regexp option"

definition canonicalize :: "string \<Rightarrow> string" where
  "canonicalize text = toUpperCase text"

definition new_RegExp :: "regexp_engine \<Rightarrow> string \<Rightarrow> string \<Rightarrow> regexp option" where
  "new_RegExp rx pattern flags =
     (case rx pattern flags of
        None \<Rightarrow> None
      | Some matcher \<Rightarrow>
          Some (\<lambda>text. matcher (if CHR ''i'' \<in> set flags then canonicalize text else text)))"

text \<open>
  The engine on the patterns without any metacharacter, which match a text when they
  occur in it as a run of characters; under the flag \<open>i\<close> the characters of the pattern
  are canonical too. It is used to run the code on policies whose patterns are plain
  strings, as those of the built-in policy are; it refuses every other pattern, so it
  says nothing on the patterns with metacharacters that the browser accepts.
\<close>

definition regexp_metachars :: string where
  "regexp_metachars = CHR 0x5C # ''^$.|?*+()[]{}''"

definition literal_engine :: regexp_engine where
  "literal_engine pattern flags =
     (if \<exists>c \<in> set pattern. c \<in> set regexp_metachars then None
      else Some (\<lambda>text. is_infix (if CHR ''i'' \<in> set flags then canonicalize pattern else pattern)
                          text))"

section \<open>Objects and the order of their properties\<close>

text \<open>
  An object written as a list of members \<open>(name, value)\<close>, in the order of the document
  that declares them, and the order in which \<^verbatim>\<open>Object.entries\<close> enumerates them. A
  member whose name is already present replaces the value and keeps the place of the
  first. The enumeration gives the properties whose name is an array index (a decimal
  numeral without leading zero, below \<open>2 ^ 32 - 1\<close>) first, in ascending numeric order,
  and then the other properties in the order of their creation.
\<close>

definition is_digit :: "char \<Rightarrow> bool" where
  "is_digit c = (c \<in> set ''0123456789'')"

definition digit_value :: "char \<Rightarrow> nat" where
  "digit_value c =
     (case map_of (zip ''0123456789'' [0, 1, 2, 3, 4, 5, 6, 7, 8, 9]) c of
        Some d \<Rightarrow> d
      | None \<Rightarrow> 0)"

definition decimal_value :: "string \<Rightarrow> nat" where
  "decimal_value s = foldl (\<lambda>n c. 10 * n + digit_value c) 0 s"

definition is_array_index :: "string \<Rightarrow> bool" where
  "is_array_index name =
     (name \<noteq> [] \<and> list_all is_digit name \<and> (name = ''0'' \<or> hd name \<noteq> CHR ''0'') \<and>
      decimal_value name < 2 ^ 32 - 1)"

definition define_property :: "string \<Rightarrow> 'a \<Rightarrow> (string \<times> 'a) list \<Rightarrow> (string \<times> 'a) list" where
  "define_property name v obj =
     (if name \<in> set (map fst obj)
      then map (\<lambda>member. if fst member = name then (name, v) else member) obj
      else obj @ [(name, v)])"

definition object_of :: "(string \<times> 'a) list \<Rightarrow> (string \<times> 'a) list" where
  "object_of members = foldl (\<lambda>obj member. define_property (fst member) (snd member) obj) [] members"

definition object_entries :: "(string \<times> 'a) list \<Rightarrow> (string \<times> 'a) list" where
  "object_entries obj =
     sort_key (\<lambda>member. decimal_value (fst member)) (filter (\<lambda>member. is_array_index (fst member)) obj) @
     filter (\<lambda>member. \<not> is_array_index (fst member)) obj"

section \<open>PolicyLoader: classification of a button text\<close>

text \<open>
  The loop over the patterns of one kind: each pattern is compiled with the flag \<open>i\<close>; a
  pattern that does not compile is caught and skipped, a pattern that tests true ends
  the search.
\<close>

fun test_patterns :: "regexp_engine \<Rightarrow> string list \<Rightarrow> string \<Rightarrow> bool" where
  "test_patterns rx [] text = False"
| "test_patterns rx (pattern # rest) text =
     (case new_RegExp rx pattern ''i'' of
        None \<Rightarrow> test_patterns rx rest text
      | Some regex \<Rightarrow> if regex text then True else test_patterns rx rest text)"

text \<open>The loop over the entries of \<^verbatim>\<open>Object.entries(kinds)\<close>.\<close>

fun classify_kinds :: "regexp_engine \<Rightarrow> (string \<times> kind_config) list \<Rightarrow> string \<Rightarrow> string option" where
  "classify_kinds rx [] text = None"
| "classify_kinds rx (entry # rest) text =
     (if test_patterns rx (patterns (snd entry)) text then Some (fst entry)
      else classify_kinds rx rest text)"

definition classifyCheckpoint :: "regexp_engine \<Rightarrow> policy option \<Rightarrow> string \<Rightarrow> string option" where
  "classifyCheckpoint rx pol text =
     (case kinds (getCheckpointMatchers pol) of
        None \<Rightarrow> None
      | Some ks \<Rightarrow> classify_kinds rx (object_entries (object_of ks)) text)"

definition matchesCheckpoint :: "regexp_engine \<Rightarrow> policy option \<Rightarrow> string \<Rightarrow> string \<Rightarrow> bool" where
  "matchesCheckpoint rx pol text kind =
     (case kinds (getCheckpointMatchers pol) of
        None \<Rightarrow> False
      | Some ks \<Rightarrow>
          (case map_of (object_of ks) kind of
             None \<Rightarrow> False
           | Some config \<Rightarrow> test_patterns rx (patterns config) text))"



section \<open>EventInterceptor: the element of an event and its classification\<close>

text \<open>
  What the interceptor and the replay read of a DOM element: its attributes and texts,
  and two readings of the page around it. \<open>el_closest sel\<close> tells whether
  \<^verbatim>\<open>element.closest(sel)\<close> finds an element; \<open>el_dom_merge_method\<close> is the method that
  \<^verbatim>\<open>detectMergeMethod\<close> reads from the merge box for an immediate merge.
\<close>

record element =
  el_id :: string
  el_dataset_testid :: "string option"
  el_dataset_action :: "string option"
  el_tagName :: string
  el_type :: "string option"
  el_name :: "string option"
  el_aria_label :: "string option"
  el_title :: "string option"
  el_value :: "string option"
  el_innerText :: "string option"
  el_textContent :: "string option"
  el_placeholder :: "string option"
  el_form_action :: "string option"
  el_has_merge_input :: bool
  el_closest :: "string \<Rightarrow> bool"
  el_dom_merge_method :: string

fun first_nonblank :: "string option list \<Rightarrow> string" where
  "first_nonblank [] = []"
| "first_nonblank (source # rest) =
     (case source of
        None \<Rightarrow> first_nonblank rest
      | Some v \<Rightarrow> if js_trim v \<noteq> [] then js_trim v else first_nonblank rest)"

definition getAccessibleName :: "element \<Rightarrow> string" where
  "getAccessibleName el =
     first_nonblank [el_aria_label el, el_title el, el_value el, el_innerText el,
                     el_textContent el, el_placeholder el]"

definition str_or :: "string option \<Rightarrow> string \<Rightarrow> string" where
  "str_or x d = (case x of None \<Rightarrow> d | Some v \<Rightarrow> if v = [] then d else v)"

definition getElementId :: "element \<Rightarrow> string" where
  "getElementId el =
     (if el_id el \<noteq> [] then el_id el
      else if str_or (el_dataset_testid el) [] \<noteq> [] then ''testid-'' @ str_or (el_dataset_testid el) []
      else if str_or (el_dataset_action el) [] \<noteq> [] then ''action-'' @ str_or (el_dataset_action el) []
      else (let text = (case el_textContent el of None \<Rightarrow> [] | Some t \<Rightarrow> take 20 (js_trim t))
            in el_tagName el @ ''-'' @ str_or (el_type el) [] @ ''-'' @ text @ ''-'' @
               str_or (el_name el) []))"

definition isInScope :: "policy option \<Rightarrow> element \<Rightarrow> bool" where
  "isInScope pol el =
     (case scope_selector (getCheckpointMatchers pol) of
        None \<Rightarrow> True
      | Some scopeSelector \<Rightarrow> if scopeSelector = [] then True else el_closest el scopeSelector)"

definition detectMergeMethod :: "element \<Rightarrow> string \<Rightarrow> string" where
  "detectMergeMethod el kind =
     (if kind \<noteq> ''MERGE_NOW'' then ''scheduled'' else el_dom_merge_method el)"

record action_info =
  ai_kind :: string
  ai_mergeMethod :: string
  ai_intentTiming :: string
  ai_element :: element
  ai_accessibleName :: string

definition classifyAction :: "regexp_engine \<Rightarrow> policy option \<Rightarrow> element \<Rightarrow> action_info option" where
  "classifyAction rx pol el =
     (if \<not> isInScope pol el then None
      else (let name = getAccessibleName el
            in if name = [] then None
               else (case classifyCheckpoint rx pol name of
                       None \<Rightarrow> None
                     | Some kind \<Rightarrow>
                         if kind = [] then None
                         else Some \<lparr>ai_kind = kind,
                                    ai_mergeMethod = detectMergeMethod el kind,
                                    ai_intentTiming = (if kind = ''MERGE_NOW'' then ''now'' else ''scheduled''),
                                    ai_element = el,
                                    ai_accessibleName = name\<rparr>)))"

definition classifyForm :: "policy option \<Rightarrow> element \<Rightarrow> action_info option" where
  "classifyForm pol form =
     (if \<not> isInScope pol form then None
      else (let action = str_or (el_form_action form) []
            in if el_has_merge_input form \<or> is_infix ''merge'' action
               then Some \<lparr>ai_kind = ''MERGE_NOW'',
                          ai_mergeMethod = detectMergeMethod form ''MERGE_NOW'',
                          ai_intentTiming = ''now'',
                          ai_element = form,
                          ai_accessibleName = ''Merge form''\<rparr>
               else None))"

text \<open>A button with the given text, with \<open>inside\<close> telling which selectors have it inside.\<close>

definition button_labelled :: "string \<Rightarrow> (string \<Rightarrow> bool) \<Rightarrow> element" where
  "button_labelled label inside =
     \<lparr>el_id = [], el_dataset_testid = None, el_dataset_action = None, el_tagName = ''BUTTON'',
      el_type = Some ''submit'', el_name = None, el_aria_label = None, el_title = None,
      el_value = Some [], el_innerText = Some label, el_textContent = Some label,
      el_placeholder = None, el_form_action = None, el_has_merge_input = False,
      el_closest = inside, el_dom_merge_method = ''merge''\<rparr>"




section \<open>Tier3Modal: the confirmation surface\<close>

text \<open>
  The configuration built by \<^verbatim>\<open>buildConfig\<close>, without the title and the subtitle,
  which are only displayed.
\<close>

record modal_config =
  cfg_checklist :: "string list"
  cfg_confirmationText :: string
  cfg_kind :: string

definition buildConfig :: "tier3_template \<Rightarrow> action_info \<Rightarrow> modal_config" where
  "buildConfig template checkpointInfo =
     \<lparr>cfg_checklist = (case checklist template of None \<Rightarrow> [] | Some items \<Rightarrow> items),
      cfg_confirmationText = str_or (confirmation_text template) ''MERGE'',
      cfg_kind = ai_kind checkpointInfo\<rparr>"

text \<open>
  The modal while it is shown: the state of its checkboxes and of its text input, the
  \<^verbatim>\<open>disabled\<close> flag of the Proceed button, whether it is still in the page, and the value
  with which its promise was resolved, if it was.
\<close>

record tier3_modal =
  md_config :: modal_config
  md_checked :: "bool list"
  md_text :: string
  md_confirm_disabled :: bool
  md_open :: bool
  md_resolved :: "string option"

text \<open>\<^verbatim>\<open>createModalElement\<close>: one unchecked box per item, an empty input, Proceed disabled.\<close>

definition createModalElement :: "modal_config \<Rightarrow> tier3_modal" where
  "createModalElement config =
     \<lparr>md_config = config,
      md_checked = replicate (length (cfg_checklist config)) False,
      md_text = [],
      md_confirm_disabled = True,
      md_open = True,
      md_resolved = None\<rparr>"

definition validate :: "tier3_modal \<Rightarrow> tier3_modal" where
  "validate md =
     (let allChecked = list_all (\<lambda>checked. checked) (md_checked md);
          textValid = (toUpperCase (js_trim (md_text md)) =
                       toUpperCase (cfg_confirmationText (md_config md)))
      in md\<lparr>md_confirm_disabled := \<not> (allChecked \<and> textValid)\<rparr>)"

text \<open>\<^verbatim>\<open>this.close(); resolve(outcome)\<close>; a promise keeps the first value it is resolved with.\<close>

definition close_and_resolve :: "string \<Rightarrow> tier3_modal \<Rightarrow> tier3_modal" where
  "close_and_resolve outcome md =
     md\<lparr>md_open := False,
        md_resolved := (case md_resolved md of None \<Rightarrow> Some outcome | Some r \<Rightarrow> Some r)\<rparr>"

datatype modal_target = OnOverlay | OnDialog | OnCheckbox nat | OnTextInput | OnConfirm | OnAbort

text \<open>
  What the user can do to the modal, as the events that reach its listeners: a checkbox
  is toggled (\<^verbatim>\<open>change\<close>), the text of the input is replaced (\<^verbatim>\<open>input\<close>), an element is
  clicked, a key goes down on an element.
\<close>

datatype modal_event =
    CheckboxToggled nat
  | TextTyped string
  | Clicked modal_target
  | KeyDown string modal_target

text \<open>
  The listeners attached by \<^verbatim>\<open>attachEventListeners\<close>. A modal that was closed is out of
  the page and receives nothing. A disabled button dispatches no click event, so the
  listener of the Proceed button runs only while the button is enabled.
\<close>

fun dispatch :: "modal_event \<Rightarrow> tier3_modal \<Rightarrow> tier3_modal" where
  "dispatch (CheckboxToggled i) md =
     (if i < length (md_checked md)
      then validate (md\<lparr>md_checked := (md_checked md)[i := \<not> md_checked md ! i]\<rparr>)
      else md)"
| "dispatch (TextTyped v) md = validate (md\<lparr>md_text := v\<rparr>)"
| "dispatch (Clicked OnConfirm) md =
     (if md_confirm_disabled md then md else close_and_resolve ''completed'' md)"
| "dispatch (Clicked OnAbort) md = close_and_resolve ''aborted'' md"
| "dispatch (Clicked OnOverlay) md = close_and_resolve ''aborted'' md"
| "dispatch (Clicked target) md = md"
| "dispatch (KeyDown key target) md =
     (if key = ''Escape'' then close_and_resolve ''aborted'' md
      else if key = ''Enter'' \<and> \<not> md_confirm_disabled md \<and> target = OnTextInput
           then close_and_resolve ''completed'' md
           else md)"

definition handle_event :: "modal_event \<Rightarrow> tier3_modal \<Rightarrow> tier3_modal" where
  "handle_event ev md = (if md_open md then dispatch ev md else md)"

definition interact :: "modal_event list \<Rightarrow> tier3_modal \<Rightarrow> tier3_modal" where
  "interact events md = fold handle_event events md"

text \<open>
  \<^verbatim>\<open>show\<close>: without a template for the kind the result is \<open>aborted\<close> at once; otherwise it
  is the value the promise is resolved with while the user acts on the modal, and \<open>None\<close>
  when the user's events leave the promise pending.
\<close>

definition tier3_show :: "policy option \<Rightarrow> action_info \<Rightarrow> modal_event list \<Rightarrow> string option" where
  "tier3_show pol checkpointInfo events =
     (case getTier3Template pol (ai_kind checkpointInfo) of
        None \<Rightarrow> Some ''aborted''
      | Some template \<Rightarrow>
          md_resolved (interact events (createModalElement (buildConfig template checkpointInfo))))"

section \<open>EventInterceptor: the handlers\<close>

text \<open>
  What a handler does that the page can observe, in order: \<open>Await\<close> is a suspension point
  (the handler returns to the event dispatcher and resumes later), named after the
  awaited call; the two calls on the event; the replay of the action on an element.
\<close>

datatype step =
    Await string
  | PreventDefault
  | StopImmediatePropagation
  | ReplayAction string

text \<open>
  The interceptor with its collaborators. \<open>ic_modal_open\<close> tells whether the Tier-3 or the
  Tier-2 modal is open; \<open>ic_pending\<close> holds the elements marked as having a replay pending.
\<close>

record interceptor =
  ic_policy :: "policy option"
  ic_state :: state_manager
  ic_cooldowns :: cooldown_manager
  ic_logger :: logger
  ic_prId :: string
  ic_isActive :: bool
  ic_modal_open :: bool
  ic_pending :: "string list"

definition shouldIntercept :: "interceptor \<Rightarrow> bool" where
  "shouldIntercept ic = (if \<not> ic_isActive ic then False else if ic_modal_open ic then False else True)"

text \<open>
  \<^verbatim>\<open>SafeReplay.replay\<close>: nothing for an element already pending; otherwise the token is
  created, the action is issued again on the element, and the pending mark is cleared.
\<close>

definition replay :: "int \<Rightarrow> element \<Rightarrow> interceptor \<Rightarrow> step list \<times> interceptor" where
  "replay now el ic =
     (if getElementId el \<in> set (ic_pending ic) then ([], ic)
      else ([Await ''createToken'', ReplayAction (getElementId el)],
            ic\<lparr>ic_cooldowns := createAllowToken now (ic_prId ic) (getElementId el) (ic_cooldowns ic)\<rparr>))"

text \<open>
  \<^verbatim>\<open>handleCheckpoint\<close>. \<open>now\<close> is the clock when the action is intercepted, \<open>later\<close> the clock
  when the modal has been answered, \<open>events\<close> what the user does to the modal. When the
  promise of the modal stays pending the handler does not go on.
\<close>

definition handleCheckpoint :: "int \<Rightarrow> int \<Rightarrow> modal_event list \<Rightarrow> action_info \<Rightarrow> element \<Rightarrow> interceptor \<Rightarrow> step list \<times> interceptor" where
  "handleCheckpoint now later events actionInfo el ic =
     (let ic1 = ic\<lparr>ic_logger := snd (logCheckpointIntercepted now (ai_kind actionInfo)
                     (ai_mergeMethod actionInfo) (ai_intentTiming actionInfo) (ic_logger ic))\<rparr>
      in case tier3_show (ic_policy ic1) actionInfo events of
           None \<Rightarrow> ([Await ''logCheckpointIntercepted'', Await ''tier3.show''], ic1)
         | Some result \<Rightarrow>
             if result = ''completed''
             then (let ic2 = ic1\<lparr>ic_logger := snd (logCheckpointCompleted later 0 (ic_logger ic1))\<rparr>;
                       ic3 = ic2\<lparr>ic_state := recordCheckpoint later (ai_kind actionInfo) ''completed'' (ic_state ic2)\<rparr>;
                       replayed = replay later el ic3
                   in ([Await ''logCheckpointIntercepted'', Await ''tier3.show'',
                        Await ''logCheckpointCompleted'', Await ''recordCheckpoint''] @ fst replayed,
                       snd replayed))
             else (let ic2 = ic1\<lparr>ic_logger := snd (logCheckpointAborted later (ic_logger ic1))\<rparr>;
                       ic3 = ic2\<lparr>ic_state := recordCheckpoint later (ai_kind actionInfo) ''aborted'' (ic_state ic2)\<rparr>
                   in ([Await ''logCheckpointIntercepted'', Await ''tier3.show'',
                        Await ''logCheckpointAborted'', Await ''recordCheckpoint''], ic3)))"

text \<open>
  \<^verbatim>\<open>handleClick\<close>; \<open>target\<close> is the result of \<^verbatim>\<open>findActionableElement\<close> on the target of
  the event. The token is looked up, with an \<^verbatim>\<open>await\<close>, before the action is classified.
\<close>

definition handleClick :: "regexp_engine \<Rightarrow> int \<Rightarrow> int \<Rightarrow> modal_event list \<Rightarrow> element option \<Rightarrow> interceptor \<Rightarrow> step list \<times> interceptor" where
  "handleClick rx now later events target ic =
     (if \<not> shouldIntercept ic then ([], ic)
      else case target of
             None \<Rightarrow> ([], ic)
           | Some el \<Rightarrow>
               if hasValidToken now (ic_prId ic) (getElementId el) (ic_cooldowns ic)
               then ([Await ''hasValidToken'', Await ''consumeToken''],
                     ic\<lparr>ic_cooldowns := consumeToken now (ic_prId ic) (getElementId el) (ic_cooldowns ic)\<rparr>)
               else (case classifyAction rx (ic_policy ic) el of
                       None \<Rightarrow> ([Await ''hasValidToken''], ic)
                     | Some actionInfo \<Rightarrow>
                         (let handled = handleCheckpoint now later events actionInfo el ic
                          in ([Await ''hasValidToken'', PreventDefault, StopImmediatePropagation]
                                @ fst handled, snd handled))))"

text \<open>\<^verbatim>\<open>handleSubmit\<close>: the form is classified first, then the token is awaited.\<close>

definition handleSubmit :: "int \<Rightarrow> int \<Rightarrow> modal_event list \<Rightarrow> element \<Rightarrow> interceptor \<Rightarrow> step list \<times> interceptor" where
  "handleSubmit now later events form ic =
     (if \<not> shouldIntercept ic then ([], ic)
      else case classifyForm (ic_policy ic) form of
             None \<Rightarrow> ([], ic)
           | Some actionInfo \<Rightarrow>
               if hasValidToken now (ic_prId ic) (getElementId form) (ic_cooldowns ic)
               then ([Await ''hasValidToken'', Await ''consumeToken''],
                     ic\<lparr>ic_cooldowns := consumeToken now (ic_prId ic) (getElementId form) (ic_cooldowns ic)\<rparr>)
               else (let handled = handleCheckpoint now later events actionInfo form ic
                     in ([Await ''hasValidToken'', PreventDefault, StopImmediatePropagation]
                           @ fst handled, snd handled)))"

text \<open>\<^verbatim>\<open>handleKeydown\<close>; \<open>active\<close> is \<^verbatim>\<open>document.activeElement\<close>.\<close>

definition handleKeydown :: "regexp_engine \<Rightarrow> int \<Rightarrow> int \<Rightarrow> modal_event list \<Rightarrow> string \<Rightarrow> element option \<Rightarrow> interceptor \<Rightarrow> step list \<times> interceptor" where
  "handleKeydown rx now later events key active ic =
     (if \<not> shouldIntercept ic then ([], ic)
      else if key \<noteq> ''Enter'' then ([], ic)
      else case active of
             None \<Rightarrow> ([], ic)
           | Some el \<Rightarrow>
               (case classifyAction rx (ic_policy ic) el of
                  None \<Rightarrow> ([], ic)
                | Some actionInfo \<Rightarrow>
                    if hasValidToken now (ic_prId ic) (getElementId el) (ic_cooldowns ic)
                    then ([Await ''hasValidToken'', Await ''consumeToken''],
                          ic\<lparr>ic_cooldowns := consumeToken now (ic_prId ic) (getElementId el) (ic_cooldowns ic)\<rparr>)
                    else (let handled = handleCheckpoint now later events actionInfo el ic
                          in ([Await ''hasValidToken'', PreventDefault, StopImmediatePropagation]
                                @ fst handled, snd handled))))"

text \<open>
  The ordering the specification asks of a handler that gates an action: both calls on
  the event occur, and no suspension point comes before either of them.
\<close>

fun is_await :: "step \<Rightarrow> bool" where
  "is_await (Await call) = True"
| "is_await other = False"

definition suppressed_before_suspension :: "step list \<Rightarrow> bool" where
  "suppressed_before_suspension trace =
     (PreventDefault \<in> set trace \<and> StopImmediatePropagation \<in> set trace \<and>
      list_all (\<lambda>s. \<not> is_await s) (takeWhile (\<lambda>s. s \<noteq> PreventDefault) trace) \<and>
      list_all (\<lambda>s. \<not> is_await s) (takeWhile (\<lambda>s. s \<noteq> StopImmediatePropagation) trace))"

text \<open>An interceptor on PR \<open>octo/repo/7\<close> with the built-in policy, active, no modal open.\<close>

definition sample_interceptor :: interceptor where
  "sample_interceptor =
     \<lparr>ic_policy = Some getFallbackPolicy, ic_state = sample_manager,
      ic_cooldowns = fresh_cooldowns, ic_logger = fresh_logger, ic_prId = ''octo/repo/7'',
      ic_isActive = True, ic_modal_open = False, ic_pending = []\<rparr>"

definition in_merge_box :: "string \<Rightarrow> bool" where
  "in_merge_box sel = (sel = ''.merge-box, [data-testid=\"mergebox\"]'')"

definition confirm_button :: element where
  "confirm_button = button_labelled ''Confirm merge'' in_merge_box"

definition confirm_info :: action_info where
  "confirm_info =
     \<lparr>ai_kind = ''MERGE_NOW'', ai_mergeMethod = ''merge'', ai_intentTiming = ''now'',
      ai_element = confirm_button, ai_accessibleName = ''Confirm merge''\<rparr>"

definition merge_form :: element where
  "merge_form =
     \<lparr>el_id = ''merge-form'', el_dataset_testid = None, el_dataset_action = None,
      el_tagName = ''FORM'', el_type = None, el_name = None, el_aria_label = None,
      el_title = None, el_value = None, el_innerText = None, el_textContent = None,
      el_placeholder = None, el_form_action = Some ''/octo/repo/pull/7/merge'',
      el_has_merge_input = False, el_closest = in_merge_box, el_dom_merge_method = ''merge''\<rparr>"


section \<open>Tier3Modal: what \<open>validate\<close> checks\<close>

text \<open>The condition under which \<^verbatim>\<open>validate\<close> enables the Proceed button.\<close>

definition confirmation_met :: "tier3_modal \<Rightarrow> bool" where
  "confirmation_met md =
     (list_all (\<lambda>checked. checked) (md_checked md) \<and>
      toUpperCase (js_trim (md_text md)) = toUpperCase (cfg_confirmationText (md_config md)))"

text \<open>
  What holds of a modal from its creation on: an open modal has a pending promise, an
  enabled Proceed button means the condition is met, a promise resolved with
  \<open>completed\<close> means the condition was met when the modal closed, there is one checkbox
  per checklist item, and the promise is resolved with one of the two outcomes only.
\<close>

definition modal_consistent :: "tier3_modal \<Rightarrow> bool" where
  "modal_consistent md =
     ((md_open md \<longrightarrow> md_resolved md = None) \<and>
      (md_open md \<and> \<not> md_confirm_disabled md \<longrightarrow> confirmation_met md) \<and>
      (md_resolved md = Some ''completed'' \<longrightarrow> confirmation_met md) \<and>
      length (md_checked md) = length (cfg_checklist (md_config md)) \<and>
      (md_resolved md = None \<or> md_resolved md = Some ''completed'' \<or>
       md_resolved md = Some ''aborted''))"

text \<open>The configuration of the modal for an immediate merge under the built-in policy.\<close>

definition merge_now_config :: modal_config where
  "merge_now_config =
     \<lparr>cfg_checklist =
        [''I visited \"Files changed\" and reviewed the diff.'',
         ''I checked CI/status checks.'',
         ''I can restate what this merges into.''],
      cfg_confirmationText = ''MERGE'',
      cfg_kind = ''MERGE_NOW''\<rparr>"


section \<open>Properties of the session state\<close>

lemma save_currentState:
  "currentState (save now m) = None \<longleftrightarrow> currentState m = None"
  by (simp add: save_def Let_def split: option.splits)

lemma save_history:
  "currentState m = Some s \<Longrightarrow>
   \<exists>s'. currentState (save now m) = Some s' \<and> checkpointHistory s' = checkpointHistory s"
  by (simp add: save_def Let_def split: option.splits)

lemma save_storage:
  "storage (save now m) k = Some t \<Longrightarrow>
   storage m k = Some t \<or> (\<exists>s. currentState m = Some s \<and> t = s\<lparr>lastActive := now\<rparr>)"
  by (auto simp: save_def Let_def split: option.splits if_splits)

lemma save_bounded:
  assumes "history_bounded m"
  shows "history_bounded (save now m)"
  unfolding history_bounded_def
proof (intro conjI allI impI)
  fix s assume "currentState (save now m) = Some s"
  then obtain s0 where "currentState m = Some s0"
    using save_currentState [of now m] by (cases "currentState m") auto
  with save_history [of m s0 now] \<open>currentState (save now m) = Some s\<close> assms
  show "length (checkpointHistory s) \<le> 10"
    by (auto simp: history_bounded_def)
next
  fix k s assume "storage (save now m) k = Some s"
  from save_storage [OF this] assms show "length (checkpointHistory s) \<le> 10"
    by (auto simp: history_bounded_def)
qed

lemma bounded_with_state:
  assumes "history_bounded m" and "length (checkpointHistory s') \<le> 10"
  shows "history_bounded (m\<lparr>currentState := Some s'\<rparr>)"
  using assms by (simp add: history_bounded_def)

lemma pushed_kept_length:
  assumes "length h \<le> 10"
  shows "length (if length (h @ [e]) > 10 then tl (h @ [e]) else h @ [e]) \<le> 10"
  using assms by simp

lemma initialize_bounded:
  assumes "history_bounded m"
  shows "history_bounded (initialize now parsed m)"
proof (cases parsed)
  case None
  with assms show ?thesis by (simp add: initialize_def history_bounded_def)
next
  case (Some info)
  define p where "p = pi_owner info @ ''/'' @ pi_repo info @ ''/'' @ showNat (pi_prNumber info)"
  define m1 where "m1 = m\<lparr>mgr_prId := Some p\<rparr>"
  have b1: "history_bounded m1"
    using assms by (simp add: m1_def history_bounded_def)
  have fresh: "length (checkpointHistory (createFreshState now info m1)) \<le> 10"
    by (simp add: createFreshState_def)
  define m2 where "m2 =
          (case storage m1 (state_key p) of
             None \<Rightarrow> m1\<lparr>currentState := Some (createFreshState now info m1)\<rparr>
           | Some existing \<Rightarrow>
               if isValidState existing
               then m1\<lparr>currentState :=
                       Some (existing\<lparr>sessionId := mgr_sessionId m1, lastActive := now\<rparr>)\<rparr>
               else m1\<lparr>currentState := Some (createFreshState now info m1)\<rparr>)"
  have b2: "history_bounded m2"
  proof (cases "storage m1 (state_key p)")
    case None
    then show ?thesis using bounded_with_state [OF b1 fresh] by (simp add: m2_def)
  next
    case (Some existing)
    then have "length (checkpointHistory existing) \<le> 10"
      using b1 by (auto simp: history_bounded_def)
    then have "length (checkpointHistory
                 (existing\<lparr>sessionId := mgr_sessionId m1, lastActive := now\<rparr>)) \<le> 10"
      by simp
    from bounded_with_state [OF b1 this] bounded_with_state [OF b1 fresh] Some
    show ?thesis by (simp add: m2_def)
  qed
  have "initialize now parsed m = save now m2"
    unfolding initialize_def m2_def m1_def p_def Let_def \<open>parsed = Some info\<close> by simp
  then show ?thesis
    using save_bounded [OF b2] by simp
qed

lemma perform_bounded:
  assumes "history_bounded m"
  shows "history_bounded (perform now opn m)"
proof (cases opn)
  case (Initialize parsed)
  then show ?thesis using initialize_bounded [OF assms] by simp
next
  case Save
  then show ?thesis using save_bounded [OF assms] by simp
next
  case (RecordTabView tab)
  show ?thesis
  proof (cases "currentState m")
    case None
    then show ?thesis using assms RecordTabView by (simp add: recordTabView_def)
  next
    case (Some s)
    have "length (checkpointHistory s) \<le> 10"
      using assms Some by (simp add: history_bounded_def)
    then have "history_bounded (m\<lparr>currentState := Some (s\<lparr>tabsViewed := tabsViewed s @ [tab]\<rparr>)\<rparr>)"
      using bounded_with_state [OF assms] by simp
    then show ?thesis
      using Some RecordTabView assms by (simp add: recordTabView_def save_bounded)
  qed
next
  case RecordChecksViewed
  show ?thesis
  proof (cases "currentState m")
    case None
    then show ?thesis using assms RecordChecksViewed by (simp add: recordChecksViewed_def)
  next
    case (Some s)
    have "length (checkpointHistory s) \<le> 10"
      using assms Some by (simp add: history_bounded_def)
    then have "history_bounded (m\<lparr>currentState := Some (s\<lparr>checksViewed := True\<rparr>)\<rparr>)"
      using bounded_with_state [OF assms] by simp
    then show ?thesis
      using Some RecordChecksViewed assms by (simp add: recordChecksViewed_def save_bounded)
  qed
next
  case (AddDiffTime ms)
  show ?thesis
  proof (cases "currentState m")
    case None
    then show ?thesis using assms AddDiffTime by (simp add: addDiffTime_def)
  next
    case (Some s)
    have "length (checkpointHistory s) \<le> 10"
      using assms Some by (simp add: history_bounded_def)
    then show ?thesis
      using Some AddDiffTime bounded_with_state [OF assms]
      by (simp add: addDiffTime_def save_bounded)
  qed
next
  case (UpdateScrollMax pct)
  show ?thesis
  proof (cases "currentState m")
    case None
    then show ?thesis using assms UpdateScrollMax by (simp add: updateScrollMax_def)
  next
    case (Some s)
    have "length (checkpointHistory s) \<le> 10"
      using assms Some by (simp add: history_bounded_def)
    then show ?thesis
      using Some UpdateScrollMax bounded_with_state [OF assms]
      by (simp add: updateScrollMax_def save_bounded)
  qed
next
  case (UpdateDiffMetrics metrics)
  show ?thesis
  proof (cases "currentState m")
    case None
    then show ?thesis using assms UpdateDiffMetrics by (simp add: updateDiffMetrics_def)
  next
    case (Some s)
    have "length (checkpointHistory s) \<le> 10"
      using assms Some by (simp add: history_bounded_def)
    then show ?thesis
      using Some UpdateDiffMetrics bounded_with_state [OF assms]
      by (simp add: updateDiffMetrics_def save_bounded)
  qed
next
  case (RecordNudgeShown type tier)
  show ?thesis
  proof (cases "currentState m")
    case None
    then show ?thesis using assms RecordNudgeShown by (simp add: recordNudgeShown_def)
  next
    case (Some s)
    have "length (checkpointHistory s) \<le> 10"
      using assms Some by (simp add: history_bounded_def)
    then show ?thesis
      using Some RecordNudgeShown bounded_with_state [OF assms]
      by (simp add: recordNudgeShown_def save_bounded)
  qed
next
  case (RecordCheckpoint kind result)
  show ?thesis
  proof (cases "currentState m")
    case None
    then show ?thesis using assms RecordCheckpoint by (simp add: recordCheckpoint_def)
  next
    case (Some s)
    have "length (checkpointHistory s) \<le> 10"
      using assms Some by (simp add: history_bounded_def)
    from pushed_kept_length [OF this]
    show ?thesis
      using Some RecordCheckpoint bounded_with_state [OF assms]
      by (simp add: recordCheckpoint_def Let_def save_bounded)
  qed
next
  case (Reset newId)
  then show ?thesis using assms by (simp add: reset_def history_bounded_def)
next
  case (ClearAll newId)
  then show ?thesis
    using assms by (auto simp: clearAll_def reset_def history_bounded_def split: if_splits)
qed

lemma recordCheckpoint_history:
  assumes "currentState m = Some s"
  shows "\<exists>s'. currentState (recordCheckpoint now kind result m) = Some s' \<and>
           checkpointHistory s' =
             (let pushed = checkpointHistory s @
                     [\<lparr>cp_timestamp = now, cp_kind = kind, cp_result = result\<rparr>]
              in if length pushed > 10 then tl pushed else pushed)"
proof -
  let ?m' = "m\<lparr>currentState := Some (s\<lparr>checkpointHistory :=
               (let pushed = checkpointHistory s @
                     [\<lparr>cp_timestamp = now, cp_kind = kind, cp_result = result\<rparr>]
                in if length pushed > 10 then tl pushed else pushed)\<rparr>)\<rparr>"
  have "recordCheckpoint now kind result m = save now ?m'"
    using assms by (simp add: recordCheckpoint_def Let_def)
  moreover have "\<exists>s'. currentState (save now ?m') = Some s' \<and>
      checkpointHistory s' = checkpointHistory (s\<lparr>checkpointHistory :=
               (let pushed = checkpointHistory s @
                     [\<lparr>cp_timestamp = now, cp_kind = kind, cp_result = result\<rparr>]
                in if length pushed > 10 then tl pushed else pushed)\<rparr>)"
    by (rule save_history) simp
  ultimately show ?thesis by simp
qed

lemma tl_is_drop:
  "length h = 10 \<Longrightarrow> tl (h @ [e]) = drop (length (h @ [e]) - 10) (h @ [e])"
  by (cases h) (simp_all add: drop_Suc)

text \<open>
  C9. The bound \<open>length checkpointHistory \<le> 10\<close>, on the state in memory and on every
  persisted copy, is preserved by every operation of the manager. On a session state
  within the bound, \<open>recordCheckpoint\<close> appends the entry \<open>{timestamp, kind, result}\<close> at
  the end; when the list was full it drops exactly the first (oldest) entry. The new
  history is within the bound, ends with the new entry, and is the last ten entries of
  the old history followed by the new entry, in their order.
\<close>

theorem recordCheckpoint_keeps_last_ten:
  "(history_bounded m \<longrightarrow> history_bounded (perform now opn m)) \<and>
   (\<forall>s. currentState m = Some s \<and> length (checkpointHistory s) \<le> 10 \<longrightarrow>
      (\<exists>s'. currentState (recordCheckpoint now kind result m) = Some s' \<and>
         (let e = \<lparr>cp_timestamp = now, cp_kind = kind, cp_result = result\<rparr>;
              h = checkpointHistory s
          in checkpointHistory s' = (if length h = 10 then tl h @ [e] else h @ [e]) \<and>
             length (checkpointHistory s') \<le> 10 \<and>
             last (checkpointHistory s') = e \<and>
             checkpointHistory s' = drop (length (h @ [e]) - 10) (h @ [e]))))"
proof (intro conjI impI allI)
  assume "history_bounded m"
  then show "history_bounded (perform now opn m)" by (rule perform_bounded)
next
  fix s assume a: "currentState m = Some s \<and> length (checkpointHistory s) \<le> 10"
  define e where "e = \<lparr>cp_timestamp = now, cp_kind = kind, cp_result = result\<rparr>"
  define h where "h = checkpointHistory s"
  from a recordCheckpoint_history [of m s now kind result]
  obtain s' where s': "currentState (recordCheckpoint now kind result m) = Some s'"
    and hist: "checkpointHistory s' = (if length (h @ [e]) > 10 then tl (h @ [e]) else h @ [e])"
    by (auto simp: Let_def e_def h_def)
  have len: "length h \<le> 10" using a by (simp add: h_def)
  have 1: "checkpointHistory s' = (if length h = 10 then tl h @ [e] else h @ [e])"
  proof (cases "length h = 10")
    case True
    then have "h \<noteq> []" by auto
    then show ?thesis using hist True by simp
  next
    case False
    then show ?thesis using hist len by simp
  qed
  have 2: "length (checkpointHistory s') \<le> 10"
    using 1 len by (cases "length h = 10") simp_all
  have 3: "last (checkpointHistory s') = e"
    using 1 by simp
  have 4: "checkpointHistory s' = drop (length (h @ [e]) - 10) (h @ [e])"
  proof (cases "length h = 10")
    case True
    then show ?thesis using hist tl_is_drop [OF True, of e] by simp
  next
    case False
    then show ?thesis using hist len by simp
  qed
  show "\<exists>s'. currentState (recordCheckpoint now kind result m) = Some s' \<and>
         (let e = \<lparr>cp_timestamp = now, cp_kind = kind, cp_result = result\<rparr>;
              h = checkpointHistory s
          in checkpointHistory s' = (if length h = 10 then tl h @ [e] else h @ [e]) \<and>
             length (checkpointHistory s') \<le> 10 \<and>
             last (checkpointHistory s') = e \<and>
             checkpointHistory s' = drop (length (h @ [e]) - 10) (h @ [e]))"
    using s' 1 2 3 4 by (simp add: Let_def e_def h_def)
qed

theorem recordCheckpoint_keeps_last_ten_witness:
  "history_bounded sample_manager \<and>
   history_bounded (perform 99 (RecordCheckpoint ''MERGE_NOW'' ''aborted'') sample_manager) \<and>
   currentState sample_manager = Some sample_state \<and>
   length (checkpointHistory sample_state) = 10 \<and>
   map_option (map cp_timestamp \<circ> checkpointHistory)
     (currentState (recordCheckpoint 99 ''MERGE_NOW'' ''aborted'' sample_manager)) =
     Some [2, 3, 4, 5, 6, 7, 8, 9, 10, 99] \<and>
   map_option (map cp_result \<circ> checkpointHistory)
     (currentState (recordCheckpoint 99 ''MERGE_NOW'' ''aborted'' sample_manager)) =
     Some (replicate 9 ''completed'' @ [''aborted''])"
proof -
  have b: "history_bounded sample_manager"
    by (simp add: history_bounded_def sample_manager_def sample_state_def sample_history_def)
  have c: "currentState sample_manager = Some sample_state"
    by (simp add: sample_manager_def)
  have l: "length (checkpointHistory sample_state) = 10"
    by (simp add: sample_state_def sample_history_def)
  note t = recordCheckpoint_keeps_last_ten [of sample_manager 99
      "RecordCheckpoint ''MERGE_NOW'' ''aborted''" "''MERGE_NOW''" "''aborted''"]
  from t b have b': "history_bounded
      (perform 99 (RecordCheckpoint ''MERGE_NOW'' ''aborted'') sample_manager)"
    by blast
  from t c l obtain s' where
    s': "currentState (recordCheckpoint 99 ''MERGE_NOW'' ''aborted'' sample_manager) = Some s'"
    and h: "checkpointHistory s' = tl (checkpointHistory sample_state) @
              [\<lparr>cp_timestamp = 99, cp_kind = ''MERGE_NOW'', cp_result = ''aborted''\<rparr>]"
    by (auto simp: Let_def)
  have "map cp_timestamp (checkpointHistory s') = [2, 3, 4, 5, 6, 7, 8, 9, 10, 99]"
    using h by (simp add: sample_state_def sample_history_def)
  moreover have "map cp_result (checkpointHistory s') = replicate 9 ''completed'' @ [''aborted'']"
    using h by (simp add: sample_state_def sample_history_def eval_nat_numeral)
  ultimately show ?thesis using b b' c l s' by simp
qed

text \<open>
  C10. \<open>updateScrollMax\<close> stores the maximum of the previous \<open>diff_scroll_max_pct\<close> and
  the input, so the stored value never decreases. The session state after the call is
  the state before it with \<open>diffMetrics.diff_scroll_max_pct\<close> and \<open>lastActive\<close> replaced
  and every other field as it was (\<open>lastActive\<close> is the clock reading when the state is
  persisted, and is kept otherwise); the identifiers held by the manager are unchanged.
  Without a current session the call changes nothing.
\<close>

theorem updateScrollMax_never_decreases:
  "(currentState m = None \<longrightarrow> updateScrollMax now pct m = m) \<and>
   (\<forall>s. currentState m = Some s \<longrightarrow>
      (\<exists>s'. currentState (updateScrollMax now pct m) = Some s' \<and>
         diff_scroll_max_pct (diffMetrics s') = max (diff_scroll_max_pct (diffMetrics s)) pct \<and>
         diff_scroll_max_pct (diffMetrics s) \<le> diff_scroll_max_pct (diffMetrics s') \<and>
         s' = s\<lparr>diffMetrics := (diffMetrics s)\<lparr>diff_scroll_max_pct :=
                     diff_scroll_max_pct (diffMetrics s')\<rparr>,
                lastActive := lastActive s'\<rparr> \<and>
         (lastActive s' = now \<or> lastActive s' = lastActive s) \<and>
         mgr_prId (updateScrollMax now pct m) = mgr_prId m \<and>
         mgr_sessionId (updateScrollMax now pct m) = mgr_sessionId m))"
proof (intro conjI impI allI)
  assume "currentState m = None"
  then show "updateScrollMax now pct m = m" by (simp add: updateScrollMax_def)
next
  fix s assume s: "currentState m = Some s"
  show "\<exists>s'. currentState (updateScrollMax now pct m) = Some s' \<and>
         diff_scroll_max_pct (diffMetrics s') = max (diff_scroll_max_pct (diffMetrics s)) pct \<and>
         diff_scroll_max_pct (diffMetrics s) \<le> diff_scroll_max_pct (diffMetrics s') \<and>
         s' = s\<lparr>diffMetrics := (diffMetrics s)\<lparr>diff_scroll_max_pct :=
                     diff_scroll_max_pct (diffMetrics s')\<rparr>,
                lastActive := lastActive s'\<rparr> \<and>
         (lastActive s' = now \<or> lastActive s' = lastActive s) \<and>
         mgr_prId (updateScrollMax now pct m) = mgr_prId m \<and>
         mgr_sessionId (updateScrollMax now pct m) = mgr_sessionId m"
  proof (cases "mgr_prId m")
    case None
    then show ?thesis using s by (simp add: updateScrollMax_def save_def)
  next
    case (Some p)
    then show ?thesis using s by (cases "p = []") (simp_all add: updateScrollMax_def save_def Let_def)
  qed
qed

theorem updateScrollMax_never_decreases_witness:
  "currentState sample_manager = Some sample_state \<and>
   diff_scroll_max_pct (diffMetrics sample_state) = 40 \<and>
   map_option (diff_scroll_max_pct \<circ> diffMetrics)
     (currentState (updateScrollMax 50 25 sample_manager)) = Some 40 \<and>
   map_option (diff_scroll_max_pct \<circ> diffMetrics)
     (currentState (updateScrollMax 50 75 sample_manager)) = Some 75 \<and>
   map_option tabsViewed (currentState (updateScrollMax 50 75 sample_manager)) =
     Some [''files'']"
proof -
  have c: "currentState sample_manager = Some sample_state"
    by (simp add: sample_manager_def)
  have v: "diff_scroll_max_pct (diffMetrics sample_state) = 40"
    by (simp add: sample_state_def)
  from updateScrollMax_never_decreases [of sample_manager 50 25] c obtain s1 where
    "currentState (updateScrollMax 50 25 sample_manager) = Some s1"
    "diff_scroll_max_pct (diffMetrics s1) = max (diff_scroll_max_pct (diffMetrics sample_state)) 25"
    by blast
  moreover from updateScrollMax_never_decreases [of sample_manager 50 75] c obtain s2 where
    "currentState (updateScrollMax 50 75 sample_manager) = Some s2"
    "diff_scroll_max_pct (diffMetrics s2) = max (diff_scroll_max_pct (diffMetrics sample_state)) 75"
    "s2 = sample_state\<lparr>diffMetrics := (diffMetrics sample_state)\<lparr>diff_scroll_max_pct :=
                     diff_scroll_max_pct (diffMetrics s2)\<rparr>,
                lastActive := lastActive s2\<rparr>"
    by blast
  moreover have "tabsViewed (sample_state\<lparr>diffMetrics := d, lastActive := t\<rparr>) = [''files'']" for d t
    by (simp add: sample_state_def)
  ultimately show ?thesis using c v by (simp, metis)
qed

section \<open>Properties of the cooldown manager\<close>

lemma premerge_review_keys_differ: "premerge_key p \<noteq> review_key q"
  by (simp add: premerge_key_def review_key_def)

lemma consumeToken_invalid: "\<not> hasValidToken t p e (consumeToken now p e cm)"
  by (simp add: hasValidToken_def consumeToken_def split: option.splits)

lemma run_timers_invalid:
  "\<not> hasValidToken t p e cm \<Longrightarrow> \<not> hasValidToken t p e (run_timers u cm)"
  by (simp add: hasValidToken_def run_timers_def split: option.splits if_splits)

text \<open>
  C3. A token is valid at most once. When \<open>hasValidToken\<close> holds for a pair
  \<open>(prId, elementId)\<close>, \<open>consumeToken\<close> on that pair keeps the token in the store with
  its flag \<open>used\<close> set and schedules its removal; \<open>hasValidToken\<close> for the same pair is
  then false at every later reading of the clock, before and after the scheduled
  removal has run.
\<close>

theorem consume_invalidates_token:
  "hasValidToken now p e cm \<longrightarrow>
     (\<exists>token. cm_storage (consumeToken now p e cm) (token_key p e) = Some token \<and> used token) \<and>
     (now + 100, token_key p e) \<in> set (cm_timers (consumeToken now p e cm)) \<and>
     (\<forall>t. \<not> hasValidToken t p e (consumeToken now p e cm)) \<and>
     (\<forall>t u. \<not> hasValidToken t p e (run_timers u (consumeToken now p e cm)))"
proof
  assume v: "hasValidToken now p e cm"
  then obtain token where tok: "cm_storage cm (token_key p e) = Some token"
    by (auto simp: hasValidToken_def split: option.splits)
  then have 1: "\<exists>token. cm_storage (consumeToken now p e cm) (token_key p e) = Some token \<and> used token"
    by (simp add: consumeToken_def)
  have 2: "(now + 100, token_key p e) \<in> set (cm_timers (consumeToken now p e cm))"
    using tok by (simp add: consumeToken_def)
  have 3: "\<forall>t. \<not> hasValidToken t p e (consumeToken now p e cm)"
    by (simp add: consumeToken_invalid)
  have 4: "\<forall>t u. \<not> hasValidToken t p e (run_timers u (consumeToken now p e cm))"
    by (simp add: consumeToken_invalid run_timers_invalid)
  from 1 2 3 4 show
    "(\<exists>token. cm_storage (consumeToken now p e cm) (token_key p e) = Some token \<and> used token) \<and>
     (now + 100, token_key p e) \<in> set (cm_timers (consumeToken now p e cm)) \<and>
     (\<forall>t. \<not> hasValidToken t p e (consumeToken now p e cm)) \<and>
     (\<forall>t u. \<not> hasValidToken t p e (run_timers u (consumeToken now p e cm)))"
    by blast
qed

theorem consume_invalidates_token_witness:
  "hasValidToken 1010 ''o/r/1'' ''merge-btn'' (createAllowToken 1000 ''o/r/1'' ''merge-btn'' fresh_cooldowns) \<and>
   \<not> hasValidToken 1010 ''o/r/1'' ''merge-btn''
      (consumeToken 1010 ''o/r/1'' ''merge-btn''
         (createAllowToken 1000 ''o/r/1'' ''merge-btn'' fresh_cooldowns))"
proof -
  have v: "hasValidToken 1010 ''o/r/1'' ''merge-btn''
             (createAllowToken 1000 ''o/r/1'' ''merge-btn'' fresh_cooldowns)"
    by (simp add: hasValidToken_def createAllowToken_def fresh_cooldowns_def getCooldowns_def
        getFallbackPolicy_def num_or_def)
  with consume_invalidates_token [of 1010 "''o/r/1''" "''merge-btn''"
      "createAllowToken 1000 ''o/r/1'' ''merge-btn'' fresh_cooldowns"]
  show ?thesis by blast
qed

text \<open>
  C4. For a stored allow token (an object with a \<open>ttl\<close>), \<open>hasValidToken\<close> is true exactly
  when the token is not used and the time elapsed since its timestamp is at most its
  \<open>ttl\<close>; it is false when the store has nothing under the key. A token issued at \<open>t0\<close>
  carries the policy's \<open>token_ttl_ms\<close> (5000 when that is absent or zero) and is valid
  at \<open>t\<close> exactly when \<open>t - t0\<close> is at most that value; with a TTL of 5000 it is valid
  4999 ms and 5000 ms after issuance and invalid 5001 ms after it.
\<close>

theorem hasValidToken_iff_unused_and_fresh:
  "(\<forall>token d. cm_storage cm (token_key p e) = Some token \<and> ttl token = Some d \<longrightarrow>
      hasValidToken now p e cm = (\<not> used token \<and> now - timestamp token \<le> d)) \<and>
   (cm_storage cm (token_key p e) = None \<longrightarrow> \<not> hasValidToken now p e cm) \<and>
   hasValidToken t p e (createAllowToken t0 p e cm) =
     (t - t0 \<le> num_or (token_ttl_ms (getCooldowns (cm_policy cm))) 5000) \<and>
   (token_ttl_ms (getCooldowns (cm_policy cm)) = Some 5000 \<longrightarrow>
      hasValidToken (t0 + 4999) p e (createAllowToken t0 p e cm) \<and>
      hasValidToken (t0 + 5000) p e (createAllowToken t0 p e cm) \<and>
      \<not> hasValidToken (t0 + 5001) p e (createAllowToken t0 p e cm))"
proof (intro conjI allI impI)
  fix token d
  assume "cm_storage cm (token_key p e) = Some token \<and> ttl token = Some d"
  then show "hasValidToken now p e cm = (\<not> used token \<and> now - timestamp token \<le> d)"
    by (auto simp: hasValidToken_def Let_def)
next
  assume "cm_storage cm (token_key p e) = None"
  then show "\<not> hasValidToken now p e cm" by (simp add: hasValidToken_def)
next
  show "hasValidToken t p e (createAllowToken t0 p e cm) =
     (t - t0 \<le> num_or (token_ttl_ms (getCooldowns (cm_policy cm))) 5000)"
    by (auto simp: hasValidToken_def createAllowToken_def Let_def)
next
  assume "token_ttl_ms (getCooldowns (cm_policy cm)) = Some 5000"
  then show "hasValidToken (t0 + 4999) p e (createAllowToken t0 p e cm)"
    by (simp add: hasValidToken_def createAllowToken_def num_or_def)
next
  assume "token_ttl_ms (getCooldowns (cm_policy cm)) = Some 5000"
  then show "hasValidToken (t0 + 5000) p e (createAllowToken t0 p e cm)"
    by (simp add: hasValidToken_def createAllowToken_def num_or_def)
next
  assume "token_ttl_ms (getCooldowns (cm_policy cm)) = Some 5000"
  then show "\<not> hasValidToken (t0 + 5001) p e (createAllowToken t0 p e cm)"
    by (simp add: hasValidToken_def createAllowToken_def num_or_def)
qed

theorem hasValidToken_iff_unused_and_fresh_witness:
  "token_ttl_ms (getCooldowns (cm_policy fresh_cooldowns)) = Some 5000 \<and>
   cm_storage fresh_cooldowns (token_key ''o/r/1'' ''merge-btn'') = None \<and>
   \<not> hasValidToken 1000 ''o/r/1'' ''merge-btn'' fresh_cooldowns \<and>
   hasValidToken 5999 ''o/r/1'' ''merge-btn''
     (createAllowToken 1000 ''o/r/1'' ''merge-btn'' fresh_cooldowns) \<and>
   \<not> hasValidToken 6001 ''o/r/1'' ''merge-btn''
     (createAllowToken 1000 ''o/r/1'' ''merge-btn'' fresh_cooldowns)"
proof -
  have h: "token_ttl_ms (getCooldowns (cm_policy fresh_cooldowns)) = Some 5000"
    by (simp add: fresh_cooldowns_def getCooldowns_def getFallbackPolicy_def)
  have n: "cm_storage fresh_cooldowns (token_key ''o/r/1'' ''merge-btn'') = None"
    by (simp add: fresh_cooldowns_def)
  from hasValidToken_iff_unused_and_fresh
         [of fresh_cooldowns "''o/r/1''" "''merge-btn''" 1000 0 1000] h n
  show ?thesis by simp
qed

lemma cooldown_keys_differ:
  "premerge_key p \<noteq> review_key q \<and> premerge_key p \<noteq> proactive_key q \<and>
   premerge_key p \<noteq> token_key q e \<and> review_key p \<noteq> proactive_key q \<and>
   review_key p \<noteq> token_key q e"
  by (simp add: premerge_key_def review_key_def proactive_key_def token_key_def)

lemma cooldown_keys_injective:
  "(premerge_key p = premerge_key q \<longleftrightarrow> p = q) \<and> (review_key p = review_key q \<longleftrightarrow> p = q)"
  by (simp add: premerge_key_def review_key_def)

lemma shouldShow_depends_on_two_keys:
  assumes "cm_storage cm' (premerge_key p) = cm_storage cm (premerge_key p)"
    and "cm_storage cm' (review_key p) = cm_storage cm (review_key p)"
  shows "shouldShowPremergeNudge p cm' = shouldShowPremergeNudge p cm"
  unfolding shouldShowPremergeNudge_def assms by (rule refl)

text \<open>
  C8. \<open>shouldShowPremergeNudge\<close> for a PR is true exactly when no pre-merge nudge record
  is stored for it, or a review record is stored for it whose timestamp is strictly
  greater than that of the nudge record. The function does not read the clock, so the
  answer does not depend on the time elapsed since the nudge was shown: after
  \<open>recordPremergeNudge\<close> at \<open>t1\<close> the answer is false until \<open>recordReview\<close> at some
  \<open>t2 > t1\<close> makes it true; a review at \<open>t2 \<le> t1\<close> leaves it false. The answer is per
  resource: different PRs have different keys, and the answer for a PR is not changed by
  a nudge or a review recorded for another PR, nor by a proactive nudge or an allow
  token recorded for any PR.
\<close>

theorem shouldShowPremergeNudge_iff:
  "shouldShowPremergeNudge p cm =
     (cm_storage cm (premerge_key p) = None \<or>
      (\<exists>record lastReview.
          cm_storage cm (premerge_key p) = Some record \<and>
          cm_storage cm (review_key p) = Some lastReview \<and>
          timestamp lastReview > timestamp record)) \<and>
   shouldShowPremergeNudge p (recordReview t2 p (recordPremergeNudge t1 p tier action cm)) =
     (t2 > t1) \<and>
   (cm_storage cm (review_key p) = None \<longrightarrow>
      \<not> shouldShowPremergeNudge p (recordPremergeNudge t1 p tier action cm)) \<and>
   (premerge_key p = premerge_key q \<longleftrightarrow> p = q) \<and>
   (review_key p = review_key q \<longleftrightarrow> p = q) \<and>
   (p \<noteq> q \<longrightarrow>
      shouldShowPremergeNudge p (recordPremergeNudge t1 q tier action cm) =
        shouldShowPremergeNudge p cm \<and>
      shouldShowPremergeNudge p (recordReview t2 q cm) = shouldShowPremergeNudge p cm) \<and>
   shouldShowPremergeNudge p (recordProactiveNudge t1 q score cm) = shouldShowPremergeNudge p cm \<and>
   shouldShowPremergeNudge p (createAllowToken t1 q e cm) = shouldShowPremergeNudge p cm \<and>
   shouldShowPremergeNudge p (consumeToken t1 q e cm) = shouldShowPremergeNudge p cm"
proof (intro conjI impI)
  show "shouldShowPremergeNudge p cm =
     (cm_storage cm (premerge_key p) = None \<or>
      (\<exists>record lastReview.
          cm_storage cm (premerge_key p) = Some record \<and>
          cm_storage cm (review_key p) = Some lastReview \<and>
          timestamp lastReview > timestamp record))"
    by (auto simp: shouldShowPremergeNudge_def split: option.splits)
next
  show "shouldShowPremergeNudge p (recordReview t2 p (recordPremergeNudge t1 p tier action cm)) =
     (t2 > t1)"
    using premerge_review_keys_differ [of p p]
    by (simp add: shouldShowPremergeNudge_def recordReview_def recordPremergeNudge_def)
next
  assume "cm_storage cm (review_key p) = None"
  then show "\<not> shouldShowPremergeNudge p (recordPremergeNudge t1 p tier action cm)"
    using premerge_review_keys_differ [of p p]
    by (simp add: shouldShowPremergeNudge_def recordPremergeNudge_def)
next
  show "premerge_key p = premerge_key q \<longleftrightarrow> p = q"
    using cooldown_keys_injective by blast
next
  show "review_key p = review_key q \<longleftrightarrow> p = q"
    using cooldown_keys_injective by blast
next
  assume "p \<noteq> q"
  then show "shouldShowPremergeNudge p (recordPremergeNudge t1 q tier action cm) =
        shouldShowPremergeNudge p cm"
    using cooldown_keys_differ [of q p] cooldown_keys_injective [of p q]
    by (intro shouldShow_depends_on_two_keys) (auto simp: recordPremergeNudge_def)
next
  assume "p \<noteq> q"
  then show "shouldShowPremergeNudge p (recordReview t2 q cm) = shouldShowPremergeNudge p cm"
    using cooldown_keys_differ [of p q] cooldown_keys_injective [of p q]
    by (intro shouldShow_depends_on_two_keys) (auto simp: recordReview_def)
next
  show "shouldShowPremergeNudge p (recordProactiveNudge t1 q score cm) = shouldShowPremergeNudge p cm"
    using cooldown_keys_differ [of p q]
    by (intro shouldShow_depends_on_two_keys) (auto simp: recordProactiveNudge_def)
next
  show "shouldShowPremergeNudge p (createAllowToken t1 q e cm) = shouldShowPremergeNudge p cm"
    using cooldown_keys_differ [of p q e]
    by (intro shouldShow_depends_on_two_keys) (auto simp: createAllowToken_def)
next
  show "shouldShowPremergeNudge p (consumeToken t1 q e cm) = shouldShowPremergeNudge p cm"
    using cooldown_keys_differ [of p q e]
    by (intro shouldShow_depends_on_two_keys)
       (auto simp: consumeToken_def split: option.splits)
qed

theorem shouldShowPremergeNudge_iff_witness:
  "cm_storage fresh_cooldowns (review_key ''o/r/1'') = None \<and>
   shouldShowPremergeNudge ''o/r/1'' fresh_cooldowns \<and>
   \<not> shouldShowPremergeNudge ''o/r/1''
       (recordPremergeNudge 1000 ''o/r/1'' 2 ''dismiss'' fresh_cooldowns) \<and>
   shouldShowPremergeNudge ''o/r/1''
     (recordReview 1001 ''o/r/1'' (recordPremergeNudge 1000 ''o/r/1'' 2 ''dismiss'' fresh_cooldowns)) \<and>
   \<not> shouldShowPremergeNudge ''o/r/1''
     (recordReview 1000 ''o/r/1'' (recordPremergeNudge 1000 ''o/r/1'' 2 ''dismiss'' fresh_cooldowns)) \<and>
   ''o/r/2'' \<noteq> ''o/r/1'' \<and>
   premerge_key ''o/r/2'' \<noteq> premerge_key ''o/r/1'' \<and>
   shouldShowPremergeNudge ''o/r/2''
     (recordPremergeNudge 1000 ''o/r/1'' 2 ''dismiss'' fresh_cooldowns) \<and>
   \<not> shouldShowPremergeNudge ''o/r/1''
     (recordReview 1001 ''o/r/2'' (recordPremergeNudge 1000 ''o/r/1'' 2 ''dismiss'' fresh_cooldowns))"
proof -
  let ?shown = "recordPremergeNudge 1000 ''o/r/1'' 2 ''dismiss'' fresh_cooldowns"
  have n: "cm_storage fresh_cooldowns (review_key ''o/r/1'') = None"
    by (simp add: fresh_cooldowns_def)
  have m: "cm_storage fresh_cooldowns (premerge_key p) = None" for p
    by (simp add: fresh_cooldowns_def)
  have d: "''o/r/2'' \<noteq> ''o/r/1''" "''o/r/1'' \<noteq> ''o/r/2''" by simp_all
  note t1 = shouldShowPremergeNudge_iff
      [where p = "''o/r/1''" and cm = fresh_cooldowns and ?t2.0 = 1001 and ?t1.0 = 1000
         and tier = 2 and action = "''dismiss''"]
  note t2 = shouldShowPremergeNudge_iff
      [where p = "''o/r/1''" and cm = fresh_cooldowns and ?t2.0 = 1000 and ?t1.0 = 1000
         and tier = 2 and action = "''dismiss''"]
  note t3 = shouldShowPremergeNudge_iff
      [where p = "''o/r/2''" and q = "''o/r/1''" and cm = fresh_cooldowns and ?t1.0 = 1000
         and tier = 2 and action = "''dismiss''"]
  note t4 = shouldShowPremergeNudge_iff
      [where p = "''o/r/1''" and q = "''o/r/2''" and cm = ?shown and ?t2.0 = 1001]
  have 1: "shouldShowPremergeNudge ''o/r/1'' fresh_cooldowns"
    using t1 [THEN conjunct1] m [of "''o/r/1''"] by simp
  have 2: "\<not> shouldShowPremergeNudge ''o/r/1'' ?shown"
    using t1 [THEN conjunct2, THEN conjunct2, THEN conjunct1] n by (rule mp)
  have 3: "shouldShowPremergeNudge ''o/r/1'' (recordReview 1001 ''o/r/1'' ?shown)"
    using t1 [THEN conjunct2, THEN conjunct1] by simp
  have 4: "\<not> shouldShowPremergeNudge ''o/r/1'' (recordReview 1000 ''o/r/1'' ?shown)"
    using t2 [THEN conjunct2, THEN conjunct1] by simp
  have 5: "premerge_key ''o/r/2'' \<noteq> premerge_key ''o/r/1''"
    using t3 [THEN conjunct2, THEN conjunct2, THEN conjunct2, THEN conjunct1] d(1) by (rule ssubst)
  have fresh2: "shouldShowPremergeNudge ''o/r/2'' fresh_cooldowns"
    using t3 [THEN conjunct1] m [of "''o/r/2''"] by simp
  note f3 = t3 [THEN conjunct2, THEN conjunct2, THEN conjunct2, THEN conjunct2, THEN conjunct2,
                THEN conjunct1, THEN mp, OF d(1)]
  have 6: "shouldShowPremergeNudge ''o/r/2'' ?shown"
    using f3 [THEN conjunct1] fresh2 by (rule ssubst)
  note f4 = t4 [THEN conjunct2, THEN conjunct2, THEN conjunct2, THEN conjunct2, THEN conjunct2,
                THEN conjunct1, THEN mp, OF d(2)]
  have 7: "\<not> shouldShowPremergeNudge ''o/r/1'' (recordReview 1001 ''o/r/2'' ?shown)"
    using f4 [THEN conjunct2] 2 by (rule ssubst)
  from n 1 2 3 4 d(1) 5 6 7 show ?thesis by (intro conjI)
qed


section \<open>Properties of the arithmetic of doubles\<close>

lemma binade_bounds:
  "0 < x \<Longrightarrow> 2 powi binade x \<le> x \<and> x < 2 powi (binade x + 1)"
proof (induction x rule: binade.induct)
  case (1 x)
  show ?case
  proof (cases "x \<ge> 2")
    case True
    then have b: "binade x = binade (x / 2) + 1" using 1 by (subst binade.simps) simp
    have "0 < x / 2" using 1 by simp
    with "1.IH"(1) True 1 have ih: "2 powi binade (x / 2) \<le> x / 2 \<and> x / 2 < 2 powi (binade (x / 2) + 1)"
      by simp
    have "(2::real) powi (binade (x / 2) + 1) = 2 powi binade (x / 2) * 2"
      by (rule power_int_add_1) simp
    moreover have "(2::real) powi (binade (x / 2) + 1 + 1) = 2 powi (binade (x / 2) + 1) * 2"
      by (rule power_int_add_1) simp
    ultimately show ?thesis using ih b by simp
  next
    case False
    show ?thesis
    proof (cases "x < 1")
      case True
      then have b: "binade x = binade (x * 2) - 1" using 1 False by (subst binade.simps) simp
      have "0 < x * 2" using 1 by simp
      with "1.IH"(2) True False 1
      have ih: "2 powi binade (x * 2) \<le> x * 2 \<and> x * 2 < 2 powi (binade (x * 2) + 1)"
        by simp
      have "(2::real) powi (binade (x * 2) - 1 + 1) = 2 powi (binade (x * 2) - 1) * 2"
        by (rule power_int_add_1) simp
      moreover have "(2::real) powi (binade (x * 2) + 1) = 2 powi binade (x * 2) * 2"
        by (rule power_int_add_1) simp
      ultimately show ?thesis using ih b by simp
    next
      case nl: False
      then have "binade x = 0" using 1 False by (subst binade.simps) simp
      then show ?thesis using False nl by simp
    qed
  qed
qed

lemma binade_unique:
  assumes "0 < x" and "2 powi e \<le> x" and "x < 2 powi (e + 1)"
  shows "binade x = e"
proof -
  from binade_bounds [OF assms(1)] have b: "2 powi binade x \<le> x" "x < 2 powi (binade x + 1)"
    by simp_all
  have "(2::real) powi e < 2 powi (binade x + 1)" using assms(2) b(2) by linarith
  then have "e < binade x + 1"
    by (metis less_le_not_le not_le_imp_less one_le_numeral power_int_increasing)
  moreover have "(2::real) powi binade x < 2 powi (e + 1)" using assms(3) b(1) by linarith
  then have "binade x < e + 1"
    by (metis less_le_not_le not_le_imp_less one_le_numeral power_int_increasing)
  ultimately show ?thesis by simp
qed


lemma round_half_even_bounds:
  "of_int (round_half_even q) \<le> q + 1 / 2 \<and> q - 1 / 2 \<le> of_int (round_half_even q)"
  unfolding round_half_even_def Let_def by (auto; linarith)

lemma round_half_even_int [simp]: "round_half_even (of_int n) = n"
  by (simp add: round_half_even_def)



lemma round_half_even_zero [simp]: "round_half_even 0 = 0"
  using round_half_even_int [of 0] by simp

lemma to_double_zero [simp]: "to_double 0 = 0"
  by (simp add: to_double_def)





lemma to_double_normal:
  assumes "2 powi e \<le> x" and "x < 2 powi (e + 1)" and "- 1022 \<le> e"
  shows "to_double x = of_int (round_half_even (x / 2 powi (e - 52))) * 2 powi (e - 52)"
proof -
  have "0 < x" using assms(1) zero_less_power_int [of "2::real" e] by linarith
  then have "binade \<bar>x\<bar> = e" using binade_unique [OF _ assms(1,2)] by simp
  then have "ulp_exponent x = e - 52" using assms(3) by (simp add: ulp_exponent_def)
  then show ?thesis by (simp add: to_double_def)
qed

lemma to_double_1 [simp]: "to_double 1 = 1"
  using to_double_normal [of 0 1] by (simp add: round_half_even_def)

lemma to_double_100 [simp]: "to_double 100 = 100"
  using to_double_normal [of 6 100] by (simp add: round_half_even_def)

section \<open>Properties of the readiness score\<close>
















































section \<open>Properties of the logger\<close>

lemma fold_delete_field:
  "fold delete_field fs obj = filter (\<lambda>kv. fst kv \<notin> set fs) obj"
proof (induction fs arbitrary: obj)
  case Nil
  then show ?case by simp
next
  case (Cons f fs)
  have "fold delete_field (f # fs) obj = fold delete_field fs (delete_field f obj)" by simp
  also have "\<dots> = filter (\<lambda>kv. fst kv \<notin> set fs) (delete_field f obj)" by (rule Cons.IH)
  also have "\<dots> = filter (\<lambda>kv. fst kv \<notin> set (f # fs)) obj"
    by (auto simp: delete_field_def intro: filter_cong)
  finally show ?case .
qed

lemma redact_eq:
  "redact payload =
     map (\<lambda>kv. (fst kv, truncate_value (snd kv)))
       (filter (\<lambda>kv. fst kv \<notin> set sensitiveFields) payload)"
  by (simp add: redact_def fold_delete_field)

lemma shift_while_over_drop:
  "shift_while_over n buffer = drop (length buffer - n) buffer"
proof (induction n buffer rule: shift_while_over.induct)
  case (1 n buffer)
  show ?case
  proof (cases "length buffer > n")
    case True
    then obtain x xs where b: "buffer = x # xs" by (cases buffer) auto
    have "shift_while_over n buffer = shift_while_over n (tl buffer)"
      using True by (subst shift_while_over.simps) simp
    also have "\<dots> = drop (length (tl buffer) - n) (tl buffer)" using "1.IH" True by simp
    also have "\<dots> = drop (length buffer - n) buffer"
      using True b by (simp add: Suc_diff_le drop_Suc)
    finally show ?thesis .
  next
    case False
    then show ?thesis by (subst shift_while_over.simps) simp
  qed
qed

lemma log_persists_last:
  assumes "lg_BUFFER_SIZE lg \<ge> 1"
  shows "lg_event_buffer (snd (log now ty payload lg)) \<noteq> [] \<and>
         last (lg_event_buffer (snd (log now ty payload lg))) = fst (log now ty payload lg)"
proof -
  define e where "e = fst (log now ty payload lg)"
  have b: "lg_event_buffer (snd (log now ty payload lg)) =
           drop (length (lg_event_buffer lg @ [e]) - lg_BUFFER_SIZE lg) (lg_event_buffer lg @ [e])"
    by (simp add: log_def Let_def shift_while_over_drop e_def)
  have lt: "length (lg_event_buffer lg @ [e]) - lg_BUFFER_SIZE lg < length (lg_event_buffer lg @ [e])"
    using assms by simp
  then have "drop (length (lg_event_buffer lg @ [e]) - lg_BUFFER_SIZE lg) (lg_event_buffer lg @ [e]) \<noteq> []"
    by simp
  moreover from lt have "last (drop (length (lg_event_buffer lg @ [e]) - lg_BUFFER_SIZE lg)
                     (lg_event_buffer lg @ [e])) = last (lg_event_buffer lg @ [e])"
    by (rule last_drop)
  ultimately show ?thesis using b by (simp add: e_def)
qed

text \<open>
  C7, as the code has it. The payload of the logged event is \<open>redact payload\<close>, and with
  a buffer size of at least one that event is the last entry of the persisted buffer.
  \<open>redact\<close> works on the top level of the payload only: it keeps, in order, the
  properties whose name is not on the denylist, so no property of the result has a
  denylisted name; a kept string longer than 500 characters is cut to its first 500
  characters followed by the marker \<open>... [truncated]\<close>, a shorter string is unchanged,
  and a value that is not a string (a number, an array, a nested object) is kept as it is,
  whatever it contains.
\<close>

theorem redact_top_level:
  "ev_payload (fst (log now ty payload lg)) = redact payload \<and>
   (lg_BUFFER_SIZE lg \<ge> 1 \<longrightarrow>
      last (lg_event_buffer (snd (log now ty payload lg))) = fst (log now ty payload lg)) \<and>
   redact payload =
     map (\<lambda>kv. (fst kv, truncate_value (snd kv)))
       (filter (\<lambda>kv. fst kv \<notin> set sensitiveFields) payload) \<and>
   (\<forall>kv \<in> set (redact payload). fst kv \<notin> set sensitiveFields) \<and>
   (\<forall>k s. (k, JString s) \<in> set payload \<and> k \<notin> set sensitiveFields \<and> length s > 500 \<longrightarrow>
      (k, JString (take 500 s @ ''... [truncated]'')) \<in> set (redact payload)) \<and>
   (\<forall>k s. (k, JString s) \<in> set payload \<and> k \<notin> set sensitiveFields \<and> length s \<le> 500 \<longrightarrow>
      (k, JString s) \<in> set (redact payload)) \<and>
   (\<forall>k s. (k, JString s) \<in> set (redact payload) \<longrightarrow> length s \<le> 515) \<and>
   (\<forall>k v. (k, v) \<in> set payload \<and> k \<notin> set sensitiveFields \<and> (\<forall>s. v \<noteq> JString s) \<longrightarrow>
      (k, v) \<in> set (redact payload))"
proof (intro conjI allI impI ballI)
  show "ev_payload (fst (log now ty payload lg)) = redact payload"
    by (simp add: log_def Let_def)
next
  assume "lg_BUFFER_SIZE lg \<ge> 1"
  then show "last (lg_event_buffer (snd (log now ty payload lg))) = fst (log now ty payload lg)"
    using log_persists_last by blast
next
  show "redact payload =
     map (\<lambda>kv. (fst kv, truncate_value (snd kv)))
       (filter (\<lambda>kv. fst kv \<notin> set sensitiveFields) payload)"
    by (rule redact_eq)
next
  fix kv assume "kv \<in> set (redact payload)"
  then show "fst kv \<notin> set sensitiveFields"
    unfolding redact_eq by auto
next
  fix k s
  assume "(k, JString s) \<in> set payload \<and> k \<notin> set sensitiveFields \<and> length s > 500"
  then have "(k, JString s) \<in> set (filter (\<lambda>kv. fst kv \<notin> set sensitiveFields) payload)"
    and "truncate_value (JString s) = JString (take 500 s @ ''... [truncated]'')"
    by simp_all
  then show "(k, JString (take 500 s @ ''... [truncated]'')) \<in> set (redact payload)"
    unfolding redact_eq by force
next
  fix k s
  assume "(k, JString s) \<in> set payload \<and> k \<notin> set sensitiveFields \<and> length s \<le> 500"
  then have "(k, JString s) \<in> set (filter (\<lambda>kv. fst kv \<notin> set sensitiveFields) payload)"
    and "truncate_value (JString s) = JString s"
    by simp_all
  then show "(k, JString s) \<in> set (redact payload)"
    unfolding redact_eq by force
next
  fix k s
  assume "(k, JString s) \<in> set (redact payload)"
  then obtain v where "truncate_value v = JString s"
    unfolding redact_eq by auto
  then show "length s \<le> 515"
    by (cases v) (auto split: if_splits)
next
  fix k v
  assume a: "(k, v) \<in> set payload \<and> k \<notin> set sensitiveFields \<and> (\<forall>s. v \<noteq> JString s)"
  then have "(k, v) \<in> set (filter (\<lambda>kv. fst kv \<notin> set sensitiveFields) payload)" by simp
  moreover have "truncate_value v = v" using a by (cases v) simp_all
  ultimately show "(k, v) \<in> set (redact payload)"
    unfolding redact_eq by force
qed

theorem redact_top_level_witness:
  "lg_BUFFER_SIZE fresh_logger \<ge> 1 \<and>
   ev_payload (fst (log 5 ''nudge_action''
      [(''action'', JString ''dismiss''), (''token'', JString ''abc''), (''tier'', JNumber 2)]
      fresh_logger)) = [(''action'', JString ''dismiss''), (''tier'', JNumber 2)] \<and>
   map ev_type (lg_event_buffer (snd (log 5 ''nudge_action''
      [(''action'', JString ''dismiss''), (''token'', JString ''abc''), (''tier'', JNumber 2)]
      fresh_logger))) = [''nudge_action'']"
proof -
  have s: "lg_BUFFER_SIZE fresh_logger \<ge> 1" by (simp add: fresh_logger_def)
  have r: "redact [(''action'', JString ''dismiss''), (''token'', JString ''abc''), (''tier'', JNumber 2)]
           = [(''action'', JString ''dismiss''), (''tier'', JNumber 2)]"
    by (simp add: redact_def sensitiveFields_def delete_field_def)
  have b: "map ev_type (lg_event_buffer (snd (log 5 ''nudge_action''
      [(''action'', JString ''dismiss''), (''token'', JString ''abc''), (''tier'', JNumber 2)]
      fresh_logger))) = [''nudge_action'']"
    by (simp add: log_def Let_def fresh_logger_def shift_while_over_drop)
  from redact_top_level [of 5 "''nudge_action''"
      "[(''action'', JString ''dismiss''), (''token'', JString ''abc''), (''tier'', JNumber 2)]"
      fresh_logger] s r b
  show ?thesis by simp
qed

text \<open>
  The claim fails below the top level: a denylisted property inside a nested object
  reaches the persisted entry unchanged.
\<close>

theorem redact_nested_counterexample:
  "ev_payload (fst (log 5 ''nudge_action''
      [(''meta'', JObject [(''token'', JString ''s3cr3t'')])] fresh_logger)) =
     [(''meta'', JObject [(''token'', JString ''s3cr3t'')])] \<and>
   ''token'' \<in> set sensitiveFields \<and>
   map ev_payload (lg_event_buffer (snd (log 5 ''nudge_action''
      [(''meta'', JObject [(''token'', JString ''s3cr3t'')])] fresh_logger))) =
     [[(''meta'', JObject [(''token'', JString ''s3cr3t'')])]]"
  by (simp add: log_def Let_def redact_def sensitiveFields_def delete_field_def fresh_logger_def
      shift_while_over_drop)


section \<open>Properties of the classification\<close>








lemma define_all_fresh:
  assumes "distinct (map fst members)" and "set (map fst members) \<inter> set (map fst obj) = {}"
  shows "foldl (\<lambda>obj member. define_property (fst member) (snd member) obj) obj members =
           obj @ members"
  using assms
proof (induction members arbitrary: obj)
  case Nil
  then show ?case by simp
next
  case (Cons m ms)
  have fresh: "fst m \<notin> set (map fst obj)" using Cons.prems(2) by auto
  then have step: "define_property (fst m) (snd m) obj = obj @ [m]"
    by (simp add: define_property_def)
  have "distinct (map fst ms)" using Cons.prems(1) by simp
  moreover have "set (map fst ms) \<inter> set (map fst (obj @ [m])) = {}"
    using Cons.prems by auto
  ultimately have "foldl (\<lambda>obj member. define_property (fst member) (snd member) obj) (obj @ [m]) ms =
                     (obj @ [m]) @ ms"
    by (rule Cons.IH)
  then show ?case using step by simp
qed

lemma object_of_distinct: "distinct (map fst members) \<Longrightarrow> object_of members = members"
  using define_all_fresh [of members "[]"] by (simp add: object_of_def)

lemma object_entries_plain:
  assumes "\<forall>member \<in> set obj. \<not> is_array_index (fst member)"
  shows "object_entries obj = obj"
proof -
  have "filter (\<lambda>member. is_array_index (fst member)) obj = []"
    using assms by (simp add: filter_empty_conv)
  moreover have "filter (\<lambda>member. \<not> is_array_index (fst member)) obj = obj"
    using assms by (simp add: filter_id_conv)
  ultimately show ?thesis by (simp add: object_entries_def)
qed

lemma declared_order:
  assumes "distinct (map fst ks)" and "\<forall>member \<in> set ks. \<not> is_array_index (fst member)"
  shows "object_entries (object_of ks) = ks"
  using assms by (simp add: object_of_distinct object_entries_plain)

lemma fallback_kinds_declared:
  "kinds (getCheckpointMatchers (Some getFallbackPolicy)) = Some ks \<Longrightarrow>
   distinct (map fst ks) \<and> (\<forall>member \<in> set ks. \<not> is_array_index (fst member))"
  by (auto simp: getCheckpointMatchers_def getFallbackPolicy_def is_array_index_def is_digit_def)

lemma fallback_scope:
  "isInScope (Some getFallbackPolicy) (button_labelled label inside) =
     inside ''.merge-box, [data-testid=\"mergebox\"]''"
  by (simp add: isInScope_def getCheckpointMatchers_def getFallbackPolicy_def button_labelled_def)

lemma name_confirm_merge:
  "getAccessibleName (button_labelled ''Confirm merge'' inside) = ''Confirm merge''"
  by (simp add: getAccessibleName_def button_labelled_def js_trim_def is_space_def)

lemma upper_confirm_merge:
  "toUpperCase ''Confirm merge'' = ''CONFIRM MERGE'' \<and>
   toUpperCase ''confirm MERGE'' = ''CONFIRM MERGE'' \<and>
   toUpperCase ''CONFIRM MERGE'' = ''CONFIRM MERGE'' \<and>
   toUpperCase ''merge'' = ''MERGE''"
  by (simp add: toUpperCase_def toUpperChar_def lower_letters_def upper_letters_def)

lemma literal_confirm_merge:
  "new_RegExp literal_engine ''Confirm merge'' ''i'' =
     Some (\<lambda>text. is_infix ''CONFIRM MERGE'' (toUpperCase text))"
  by (simp add: new_RegExp_def literal_engine_def regexp_metachars_def canonicalize_def
      upper_confirm_merge)



lemma classify_confirm_merge:
  "classifyCheckpoint literal_engine (Some getFallbackPolicy) ''Confirm merge'' = Some ''MERGE_NOW''"
proof -
  obtain ks where ks: "kinds (getCheckpointMatchers (Some getFallbackPolicy)) = Some ks"
    by (simp add: getCheckpointMatchers_def getFallbackPolicy_def)
  from fallback_kinds_declared [OF ks] have "object_entries (object_of ks) = ks"
    by (simp add: declared_order)
  then have "classifyCheckpoint literal_engine (Some getFallbackPolicy) ''Confirm merge'' =
               classify_kinds literal_engine ks ''Confirm merge''"
    by (simp add: classifyCheckpoint_def ks)
  also have "\<dots> = Some ''MERGE_NOW''"
    using ks by (auto simp: getCheckpointMatchers_def getFallbackPolicy_def literal_confirm_merge
        upper_confirm_merge)
  finally show ?thesis .
qed

lemma classifyAction_confirm_button:
  "classifyAction literal_engine (Some getFallbackPolicy) confirm_button = Some confirm_info"
proof -
  have sc: "isInScope (Some getFallbackPolicy) (button_labelled ''Confirm merge'' in_merge_box)"
    by (simp add: fallback_scope in_merge_box_def)
  have dm: "detectMergeMethod (button_labelled ''Confirm merge'' in_merge_box) ''MERGE_NOW'' = ''merge''"
    by (simp add: detectMergeMethod_def button_labelled_def)
  show ?thesis
    unfolding classifyAction_def confirm_button_def confirm_info_def
    by (simp add: sc dm name_confirm_merge classify_confirm_merge Let_def)
qed




section \<open>Properties of the Tier-3 modal and of the handlers\<close>

lemma created_consistent: "modal_consistent (createModalElement config)"
  by (simp add: modal_consistent_def createModalElement_def)

lemma validate_consistent:
  assumes "md_open md" and "md_resolved md = None"
    and "length (md_checked md) = length (cfg_checklist (md_config md))"
  shows "modal_consistent (validate md)"
  using assms by (simp add: modal_consistent_def validate_def confirmation_met_def Let_def)

lemma close_consistent:
  assumes "modal_consistent md" and "md_open md"
    and "outcome = ''aborted'' \<or> (outcome = ''completed'' \<and> \<not> md_confirm_disabled md)"
  shows "modal_consistent (close_and_resolve outcome md)"
  using assms
  by (auto simp: modal_consistent_def close_and_resolve_def confirmation_met_def)

lemma dispatch_consistent:
  assumes c: "modal_consistent md" and o: "md_open md"
  shows "modal_consistent (dispatch ev md)"
proof -
  from c o have r: "md_resolved md = None"
    and l: "length (md_checked md) = length (cfg_checklist (md_config md))"
    by (simp_all add: modal_consistent_def)
  show ?thesis
  proof (cases ev)
    case (CheckboxToggled i)
    show ?thesis
    proof (cases "i < length (md_checked md)")
      case True
      have "modal_consistent (validate (md\<lparr>md_checked := (md_checked md)[i := \<not> md_checked md ! i]\<rparr>))"
        by (rule validate_consistent) (simp_all add: o r l)
      then show ?thesis using CheckboxToggled True by simp
    next
      case False
      then show ?thesis using CheckboxToggled c by simp
    qed
  next
    case (TextTyped v)
    have "modal_consistent (validate (md\<lparr>md_text := v\<rparr>))"
      by (rule validate_consistent) (simp_all add: o r l)
    then show ?thesis using TextTyped by simp
  next
    case (Clicked target)
    show ?thesis
    proof (cases target)
      case OnConfirm
      show ?thesis
      proof (cases "md_confirm_disabled md")
        case True
        then show ?thesis using Clicked OnConfirm c by simp
      next
        case False
        then show ?thesis using Clicked OnConfirm close_consistent [OF c o] by simp
      qed
    next
      case OnAbort
      then show ?thesis using Clicked close_consistent [OF c o] by simp
    next
      case OnOverlay
      then show ?thesis using Clicked close_consistent [OF c o] by simp
    next
      case OnDialog
      then show ?thesis using Clicked c by simp
    next
      case (OnCheckbox n)
      then show ?thesis using Clicked c by simp
    next
      case OnTextInput
      then show ?thesis using Clicked c by simp
    qed
  next
    case (KeyDown key target)
    show ?thesis
    proof (cases "key = ''Escape''")
      case True
      then show ?thesis using KeyDown close_consistent [OF c o] by simp
    next
      case False
      show ?thesis
      proof (cases "key = ''Enter'' \<and> \<not> md_confirm_disabled md \<and> target = OnTextInput")
        case True
        then show ?thesis using KeyDown False close_consistent [OF c o] by simp
      next
        case False
        then show ?thesis using KeyDown \<open>key \<noteq> ''Escape''\<close> c by auto
      qed
    qed
  qed
qed

lemma handle_event_consistent:
  "modal_consistent md \<Longrightarrow> modal_consistent (handle_event ev md)"
  by (simp add: handle_event_def dispatch_consistent)

lemma fold_consistent:
  "modal_consistent md \<Longrightarrow> modal_consistent (fold handle_event events md)"
  by (induction events arbitrary: md) (simp_all add: handle_event_consistent)

lemma interact_consistent: "modal_consistent (interact events (createModalElement config))"
  by (simp add: interact_def fold_consistent created_consistent)

lemma dispatch_config: "md_config (dispatch ev md) = md_config md"
proof (cases ev)
  case (Clicked target)
  then show ?thesis by (cases target) (simp_all add: close_and_resolve_def)
qed (simp_all add: validate_def close_and_resolve_def Let_def)

lemma fold_config: "md_config (fold handle_event events md) = md_config md"
  by (induction events arbitrary: md) (simp_all add: handle_event_def dispatch_config)

lemma interact_config: "md_config (interact events (createModalElement config)) = config"
  by (simp add: interact_def fold_config createModalElement_def)

lemma interact_snoc: "interact (events @ [ev]) md = handle_event ev (interact events md)"
  by (simp add: interact_def)

lemma exits_abort:
  assumes "modal_consistent md" and "md_open md"
  shows "md_resolved (handle_event (Clicked OnAbort) md) = Some ''aborted'' \<and>
         md_resolved (handle_event (Clicked OnOverlay) md) = Some ''aborted'' \<and>
         md_resolved (handle_event (KeyDown ''Escape'' target) md) = Some ''aborted''"
  using assms by (simp add: modal_consistent_def handle_event_def close_and_resolve_def)

lemma log_fields:
  "ev_type (fst (log now ty payload lg)) = ty \<and>
   lg_BUFFER_SIZE (snd (log now ty payload lg)) = lg_BUFFER_SIZE lg"
  by (simp add: log_def Let_def)

lemma last_kept:
  "last (if length (h @ [e]) > 10 then tl (h @ [e]) else h @ [e]) = e \<and>
   (if length (h @ [e]) > 10 then tl (h @ [e]) else h @ [e]) \<noteq> []"
  by (cases h) auto

lemma recordCheckpoint_last:
  assumes "currentState m = Some s"
  shows "\<exists>s'. currentState (recordCheckpoint now kind result m) = Some s' \<and>
           checkpointHistory s' \<noteq> [] \<and>
           last (checkpointHistory s') = \<lparr>cp_timestamp = now, cp_kind = kind, cp_result = result\<rparr>"
proof -
  from recordCheckpoint_history [OF assms, of now kind result]
  obtain s' where s': "currentState (recordCheckpoint now kind result m) = Some s'"
    and h: "checkpointHistory s' =
             (if length (checkpointHistory s @
                     [\<lparr>cp_timestamp = now, cp_kind = kind, cp_result = result\<rparr>]) > 10
              then tl (checkpointHistory s @
                     [\<lparr>cp_timestamp = now, cp_kind = kind, cp_result = result\<rparr>])
              else checkpointHistory s @
                     [\<lparr>cp_timestamp = now, cp_kind = kind, cp_result = result\<rparr>])"
    by (auto simp: Let_def)
  from last_kept [of "checkpointHistory s"
      "\<lparr>cp_timestamp = now, cp_kind = kind, cp_result = result\<rparr>"] h s'
  show ?thesis by simp
qed

lemma handleCheckpoint_aborted:
  assumes r: "tier3_show (ic_policy ic) info events = Some result" and n: "result \<noteq> ''completed''"
  shows "handleCheckpoint now later events info el ic =
           ([Await ''logCheckpointIntercepted'', Await ''tier3.show'',
             Await ''logCheckpointAborted'', Await ''recordCheckpoint''],
            ic\<lparr>ic_logger := snd (logCheckpointAborted later
                    (snd (logCheckpointIntercepted now (ai_kind info) (ai_mergeMethod info)
                            (ai_intentTiming info) (ic_logger ic)))),
               ic_state := recordCheckpoint later (ai_kind info) ''aborted'' (ic_state ic)\<rparr>)"
  using r n by (simp add: handleCheckpoint_def Let_def)

lemma handleCheckpoint_abort_effects:
  assumes r: "tier3_show (ic_policy ic) info events = Some result" and n: "result \<noteq> ''completed''"
  shows "(\<forall>e. ReplayAction e \<notin> set (fst (handleCheckpoint now later events info el ic))) \<and>
         ic_cooldowns (snd (handleCheckpoint now later events info el ic)) = ic_cooldowns ic \<and>
         (lg_BUFFER_SIZE (ic_logger ic) \<ge> 1 \<longrightarrow>
            ev_type (last (lg_event_buffer
              (ic_logger (snd (handleCheckpoint now later events info el ic))))) =
              ''checkpoint_aborted'') \<and>
         (\<forall>s. currentState (ic_state ic) = Some s \<longrightarrow>
            (\<exists>s'. currentState (ic_state (snd (handleCheckpoint now later events info el ic))) = Some s' \<and>
               checkpointHistory s' \<noteq> [] \<and>
               last (checkpointHistory s') =
                 \<lparr>cp_timestamp = later, cp_kind = ai_kind info, cp_result = ''aborted''\<rparr>))"
proof -
  define lg1 where "lg1 = snd (logCheckpointIntercepted now (ai_kind info) (ai_mergeMethod info)
                            (ai_intentTiming info) (ic_logger ic))"
  have size1: "lg_BUFFER_SIZE lg1 = lg_BUFFER_SIZE (ic_logger ic)"
    by (simp add: lg1_def logCheckpointIntercepted_def log_fields)
  have lastev: "lg_BUFFER_SIZE (ic_logger ic) \<ge> 1 \<longrightarrow>
      ev_type (last (lg_event_buffer (snd (logCheckpointAborted later lg1)))) = ''checkpoint_aborted''"
  proof
    assume "lg_BUFFER_SIZE (ic_logger ic) \<ge> 1"
    then have "lg_BUFFER_SIZE lg1 \<ge> 1" using size1 by simp
    from log_persists_last [OF this, of later "''checkpoint_aborted''" "[]"]
    show "ev_type (last (lg_event_buffer (snd (logCheckpointAborted later lg1)))) = ''checkpoint_aborted''"
      by (simp add: logCheckpointAborted_def log_fields)
  qed
  show ?thesis
    unfolding handleCheckpoint_aborted [OF r n] lg1_def [symmetric]
    using lastev recordCheckpoint_last [of "ic_state ic" _ later "ai_kind info" "''aborted''"]
    by simp
qed

lemma fallback_show:
  "tier3_show (Some getFallbackPolicy) confirm_info events =
     md_resolved (interact events (createModalElement merge_now_config))"
  by (simp add: tier3_show_def getTier3Template_def getFallbackPolicy_def confirm_info_def
      buildConfig_def str_or_def merge_now_config_def)

lemma upper_merge:
  "toUpperCase ''MERGE'' = ''MERGE'' \<and> toUpperCase ''Merge'' = ''MERGE'' \<and>
   toUpperCase '' merge '' = '' MERGE '' \<and> js_trim '' merge '' = ''merge'' \<and>
   js_trim ''Merge'' = ''Merge'' \<and> toUpperCase ''merge'' = ''MERGE''"
  by (simp add: toUpperCase_def toUpperChar_def lower_letters_def upper_letters_def
      js_trim_def is_space_def)

lemma run_completed:
  "typed \<in> {''Merge'', '' merge ''} \<Longrightarrow>
   interact [CheckboxToggled 0, CheckboxToggled 1, CheckboxToggled 2, TextTyped typed,
             Clicked OnConfirm] (createModalElement merge_now_config) =
     \<lparr>md_config = merge_now_config, md_checked = [True, True, True], md_text = typed,
      md_confirm_disabled = False, md_open = False, md_resolved = Some ''completed''\<rparr>"
  by (auto simp: interact_def handle_event_def createModalElement_def merge_now_config_def
      validate_def close_and_resolve_def upper_merge Let_def)

lemma run_two_boxes:
  "interact [CheckboxToggled 0, CheckboxToggled 1, TextTyped ''MERGE'', Clicked OnConfirm]
     (createModalElement merge_now_config) =
     \<lparr>md_config = merge_now_config, md_checked = [True, True, False], md_text = ''MERGE'',
      md_confirm_disabled = True, md_open = True, md_resolved = None\<rparr>"
  by (simp add: interact_def handle_event_def createModalElement_def merge_now_config_def
      validate_def close_and_resolve_def upper_merge Let_def)

text \<open>
  C2, as the code has it. The promise of the Tier-3 modal is resolved with \<open>completed\<close>
  only when every checklist item is checked and the typed text, with the white space
  at its ends removed, equals the expected text up to case; while the modal is open and
  this condition fails, the Proceed button is disabled. On an open modal the Cancel
  button, a click on the overlay and the Escape key resolve the promise with \<open>aborted\<close>.
  When the modal's result is not \<open>completed\<close>, \<open>handleCheckpoint\<close> issues no replay and
  no allow token, logs \<open>checkpoint_aborted\<close> as the last event of the buffer (buffer size
  at least one) and, when a session state is loaded, appends the checkpoint to its
  history with the result \<open>aborted\<close>.
\<close>

theorem tier3_completed_requires_checklist_and_text:
  "(let md = interact events (createModalElement config) in
     (md_resolved md = Some ''completed'' \<longrightarrow>
        length (md_checked md) = length (cfg_checklist config) \<and>
        list_all (\<lambda>checked. checked) (md_checked md) \<and>
        toUpperCase (js_trim (md_text md)) = toUpperCase (cfg_confirmationText config)) \<and>
     (md_open md \<and>
      \<not> (list_all (\<lambda>checked. checked) (md_checked md) \<and>
         toUpperCase (js_trim (md_text md)) = toUpperCase (cfg_confirmationText config)) \<longrightarrow>
        md_confirm_disabled md) \<and>
     (md_open md \<longrightarrow>
        md_resolved (handle_event (Clicked OnAbort) md) = Some ''aborted'' \<and>
        md_resolved (handle_event (Clicked OnOverlay) md) = Some ''aborted'' \<and>
        md_resolved (handle_event (KeyDown ''Escape'' target) md) = Some ''aborted'') \<and>
     (md_resolved md = None \<or> md_resolved md = Some ''completed'' \<or>
      md_resolved md = Some ''aborted'')) \<and>
   (tier3_show (ic_policy ic) info events = Some result \<and> result \<noteq> ''completed'' \<longrightarrow>
      (\<forall>e. ReplayAction e \<notin> set (fst (handleCheckpoint now later events info el ic))) \<and>
      ic_cooldowns (snd (handleCheckpoint now later events info el ic)) = ic_cooldowns ic \<and>
      (lg_BUFFER_SIZE (ic_logger ic) \<ge> 1 \<longrightarrow>
         ev_type (last (lg_event_buffer
           (ic_logger (snd (handleCheckpoint now later events info el ic))))) =
           ''checkpoint_aborted'') \<and>
      (\<forall>s. currentState (ic_state ic) = Some s \<longrightarrow>
         (\<exists>s'. currentState (ic_state (snd (handleCheckpoint now later events info el ic))) = Some s' \<and>
            checkpointHistory s' \<noteq> [] \<and>
            last (checkpointHistory s') =
              \<lparr>cp_timestamp = later, cp_kind = ai_kind info, cp_result = ''aborted''\<rparr>)))"
proof -
  define md where "md = interact events (createModalElement config)"
  have c: "modal_consistent md" by (simp add: md_def interact_consistent)
  have g: "md_config md = config" by (simp add: md_def interact_config)
  have 1: "md_resolved md = Some ''completed'' \<longrightarrow>
        length (md_checked md) = length (cfg_checklist config) \<and>
        list_all (\<lambda>checked. checked) (md_checked md) \<and>
        toUpperCase (js_trim (md_text md)) = toUpperCase (cfg_confirmationText config)"
    using c g by (simp add: modal_consistent_def confirmation_met_def)
  have 2: "md_open md \<and>
      \<not> (list_all (\<lambda>checked. checked) (md_checked md) \<and>
         toUpperCase (js_trim (md_text md)) = toUpperCase (cfg_confirmationText config)) \<longrightarrow>
        md_confirm_disabled md"
    using c g by (auto simp: modal_consistent_def confirmation_met_def)
  have 3: "md_open md \<longrightarrow>
        md_resolved (handle_event (Clicked OnAbort) md) = Some ''aborted'' \<and>
        md_resolved (handle_event (Clicked OnOverlay) md) = Some ''aborted'' \<and>
        md_resolved (handle_event (KeyDown ''Escape'' target) md) = Some ''aborted''"
    using exits_abort [OF c] by blast
  have 4: "md_resolved md = None \<or> md_resolved md = Some ''completed'' \<or>
      md_resolved md = Some ''aborted''"
    using c by (simp add: modal_consistent_def)
  have 5: "tier3_show (ic_policy ic) info events = Some result \<and> result \<noteq> ''completed'' \<longrightarrow>
      (\<forall>e. ReplayAction e \<notin> set (fst (handleCheckpoint now later events info el ic))) \<and>
      ic_cooldowns (snd (handleCheckpoint now later events info el ic)) = ic_cooldowns ic \<and>
      (lg_BUFFER_SIZE (ic_logger ic) \<ge> 1 \<longrightarrow>
         ev_type (last (lg_event_buffer
           (ic_logger (snd (handleCheckpoint now later events info el ic))))) =
           ''checkpoint_aborted'') \<and>
      (\<forall>s. currentState (ic_state ic) = Some s \<longrightarrow>
         (\<exists>s'. currentState (ic_state (snd (handleCheckpoint now later events info el ic))) = Some s' \<and>
            checkpointHistory s' \<noteq> [] \<and>
            last (checkpointHistory s') =
              \<lparr>cp_timestamp = later, cp_kind = ai_kind info, cp_result = ''aborted''\<rparr>))"
    using handleCheckpoint_abort_effects by blast
  from 1 2 3 4 5 show ?thesis
    unfolding md_def [symmetric] Let_def by blast
qed

theorem tier3_completed_requires_checklist_and_text_witness:
  "tier3_show (ic_policy sample_interceptor) confirm_info
     [CheckboxToggled 0, CheckboxToggled 1, CheckboxToggled 2, TextTyped ''Merge'',
      Clicked OnConfirm] = Some ''completed'' \<and>
   md_open (interact [CheckboxToggled 0, CheckboxToggled 1, TextTyped ''MERGE'', Clicked OnConfirm]
             (createModalElement merge_now_config)) \<and>
   md_confirm_disabled
     (interact [CheckboxToggled 0, CheckboxToggled 1, TextTyped ''MERGE'', Clicked OnConfirm]
        (createModalElement merge_now_config)) \<and>
   tier3_show (ic_policy sample_interceptor) confirm_info
     [CheckboxToggled 0, CheckboxToggled 1, TextTyped ''MERGE'', Clicked OnConfirm,
      KeyDown ''Escape'' OnTextInput] = Some ''aborted'' \<and>
   lg_BUFFER_SIZE (ic_logger sample_interceptor) \<ge> 1 \<and>
   currentState (ic_state sample_interceptor) = Some sample_state \<and>
   ReplayAction (getElementId confirm_button) \<notin> set (fst (handleCheckpoint 2000 9000
     [CheckboxToggled 0, CheckboxToggled 1, TextTyped ''MERGE'', Clicked OnConfirm,
      KeyDown ''Escape'' OnTextInput] confirm_info confirm_button sample_interceptor)) \<and>
   ev_type (last (lg_event_buffer (ic_logger (snd (handleCheckpoint 2000 9000
     [CheckboxToggled 0, CheckboxToggled 1, TextTyped ''MERGE'', Clicked OnConfirm,
      KeyDown ''Escape'' OnTextInput] confirm_info confirm_button sample_interceptor))))) =
     ''checkpoint_aborted''"
proof -
  let ?done = "[CheckboxToggled 0, CheckboxToggled 1, CheckboxToggled 2, TextTyped ''Merge'',
      Clicked OnConfirm]"
  let ?two = "[CheckboxToggled 0, CheckboxToggled 1, TextTyped ''MERGE'', Clicked OnConfirm]"
  let ?esc = "[CheckboxToggled 0, CheckboxToggled 1, TextTyped ''MERGE'', Clicked OnConfirm,
      KeyDown ''Escape'' OnTextInput]"
  have pol: "ic_policy sample_interceptor = Some getFallbackPolicy"
    by (simp add: sample_interceptor_def)
  have a: "tier3_show (ic_policy sample_interceptor) confirm_info ?done = Some ''completed''"
    using run_completed [of "''Merge''"] by (simp add: pol fallback_show)
  have o: "md_open (interact ?two (createModalElement merge_now_config))"
    using run_two_boxes by simp
  have u: "\<not> (list_all (\<lambda>checked. checked)
                 (md_checked (interact ?two (createModalElement merge_now_config))) \<and>
              toUpperCase (js_trim (md_text (interact ?two (createModalElement merge_now_config)))) =
              toUpperCase (cfg_confirmationText merge_now_config))"
    using run_two_boxes by simp
  note t = tier3_completed_requires_checklist_and_text
      [where events = ?two and config = merge_now_config and target = OnTextInput]
  note t' = tier3_completed_requires_checklist_and_text
      [where events = ?esc and ic = sample_interceptor and info = confirm_info
         and result = "''aborted''" and now = 2000 and later = 9000 and el = confirm_button]
  from t o u have d: "md_confirm_disabled (interact ?two (createModalElement merge_now_config))"
    unfolding Let_def by blast
  from t o have "md_resolved (handle_event (KeyDown ''Escape'' OnTextInput)
                   (interact ?two (createModalElement merge_now_config))) = Some ''aborted''"
    unfolding Let_def by blast
  moreover have "interact ?esc (createModalElement merge_now_config) =
      handle_event (KeyDown ''Escape'' OnTextInput)
        (interact ?two (createModalElement merge_now_config))"
    using interact_snoc [of ?two "KeyDown ''Escape'' OnTextInput"] by simp
  ultimately have e: "tier3_show (ic_policy sample_interceptor) confirm_info ?esc = Some ''aborted''"
    by (simp add: pol fallback_show)
  have b: "lg_BUFFER_SIZE (ic_logger sample_interceptor) \<ge> 1"
    by (simp add: sample_interceptor_def fresh_logger_def)
  have s: "currentState (ic_state sample_interceptor) = Some sample_state"
    by (simp add: sample_interceptor_def sample_manager_def)
  have n: "''aborted'' \<noteq> ''completed''" by simp
  from t' e n b
  have r: "ReplayAction (getElementId confirm_button) \<notin> set (fst (handleCheckpoint 2000 9000
             ?esc confirm_info confirm_button sample_interceptor))"
    and l: "ev_type (last (lg_event_buffer (ic_logger (snd (handleCheckpoint 2000 9000
             ?esc confirm_info confirm_button sample_interceptor))))) = ''checkpoint_aborted''"
    by blast+
  from a o d e b s r l show ?thesis by blast
qed

text \<open>
  The claim read on the typed text as it stands fails: with the three boxes checked,
  the text \<open>merge\<close> typed between two spaces enables the Proceed button and the modal
  completes, although that text is not equal to \<open>MERGE\<close> up to case.
\<close>

theorem tier3_untrimmed_text_counterexample:
  "tier3_show (Some getFallbackPolicy) confirm_info
     [CheckboxToggled 0, CheckboxToggled 1, CheckboxToggled 2, TextTyped '' merge '',
      Clicked OnConfirm] = Some ''completed'' \<and>
   md_text (interact [CheckboxToggled 0, CheckboxToggled 1, CheckboxToggled 2,
                      TextTyped '' merge '', Clicked OnConfirm]
              (createModalElement merge_now_config)) = '' merge '' \<and>
   toUpperCase '' merge '' \<noteq> toUpperCase ''MERGE''"
  using run_completed [of "'' merge ''"] by (simp add: fallback_show upper_merge)

lemma await_first_not_suppressed: "\<not> suppressed_before_suspension (Await call # rest)"
  by (simp add: suppressed_before_suspension_def)

lemma handleClick_gated:
  assumes "shouldIntercept ic"
    and "\<not> hasValidToken now (ic_prId ic) (getElementId el) (ic_cooldowns ic)"
    and "classifyAction rx (ic_policy ic) el = Some info"
  shows "fst (handleClick rx now later events (Some el) ic) =
           Await ''hasValidToken'' # PreventDefault # StopImmediatePropagation #
             fst (handleCheckpoint now later events info el ic)"
  using assms by (simp add: handleClick_def Let_def)

lemma handleSubmit_gated:
  assumes "shouldIntercept ic"
    and "\<not> hasValidToken now (ic_prId ic) (getElementId form) (ic_cooldowns ic)"
    and "classifyForm (ic_policy ic) form = Some info"
  shows "fst (handleSubmit now later events form ic) =
           Await ''hasValidToken'' # PreventDefault # StopImmediatePropagation #
             fst (handleCheckpoint now later events info form ic)"
  using assms by (simp add: handleSubmit_def Let_def)

text \<open>
  C1 fails on the code. Whenever \<open>handleClick\<close> gates a click (the interceptor is active,
  no valid token exists, the element classifies into a kind), its first step is the
  suspension on the token lookup, and \<open>preventDefault\<close> and \<open>stopImmediatePropagation\<close>
  come after it; \<open>handleSubmit\<close> classifies first but also awaits the token lookup before
  the two calls. So no gated event has its default effect suppressed before the first
  suspension point.
\<close>

theorem gated_event_suppressed_after_token_lookup:
  "(shouldIntercept ic \<and>
    \<not> hasValidToken now (ic_prId ic) (getElementId el) (ic_cooldowns ic) \<and>
    classifyAction rx (ic_policy ic) el = Some info \<longrightarrow>
      fst (handleClick rx now later events (Some el) ic) =
        Await ''hasValidToken'' # PreventDefault # StopImmediatePropagation #
          fst (handleCheckpoint now later events info el ic) \<and>
      \<not> suppressed_before_suspension (fst (handleClick rx now later events (Some el) ic))) \<and>
   (shouldIntercept ic \<and>
    \<not> hasValidToken now (ic_prId ic) (getElementId el) (ic_cooldowns ic) \<and>
    classifyForm (ic_policy ic) el = Some info \<longrightarrow>
      fst (handleSubmit now later events el ic) =
        Await ''hasValidToken'' # PreventDefault # StopImmediatePropagation #
          fst (handleCheckpoint now later events info el ic) \<and>
      \<not> suppressed_before_suspension (fst (handleSubmit now later events el ic)))"
  using handleClick_gated [of ic now el rx info later events]
        handleSubmit_gated [of ic now el info later events]
        await_first_not_suppressed
  by simp


theorem gated_event_suppressed_after_token_lookup_witness:
  "shouldIntercept sample_interceptor \<and>
   \<not> hasValidToken 2000 (ic_prId sample_interceptor) (getElementId confirm_button)
       (ic_cooldowns sample_interceptor) \<and>
   classifyAction literal_engine (ic_policy sample_interceptor) confirm_button = Some confirm_info \<and>
   take 3 (fst (handleClick literal_engine 2000 9000 [Clicked OnAbort] (Some confirm_button)
                  sample_interceptor)) =
     [Await ''hasValidToken'', PreventDefault, StopImmediatePropagation] \<and>
   \<not> suppressed_before_suspension
       (fst (handleClick literal_engine 2000 9000 [Clicked OnAbort] (Some confirm_button)
               sample_interceptor)) \<and>
   map_option ai_kind (classifyForm (ic_policy sample_interceptor) merge_form) = Some ''MERGE_NOW'' \<and>
   take 3 (fst (handleSubmit 2000 9000 [Clicked OnAbort] merge_form sample_interceptor)) =
     [Await ''hasValidToken'', PreventDefault, StopImmediatePropagation] \<and>
   \<not> suppressed_before_suspension
       (fst (handleSubmit 2000 9000 [Clicked OnAbort] merge_form sample_interceptor))"
proof -
  have pol: "ic_policy sample_interceptor = Some getFallbackPolicy"
    by (simp add: sample_interceptor_def)
  have si: "shouldIntercept sample_interceptor"
    by (simp add: shouldIntercept_def sample_interceptor_def)
  have nt: "\<not> hasValidToken 2000 (ic_prId sample_interceptor) e (ic_cooldowns sample_interceptor)" for e
    by (simp add: hasValidToken_def sample_interceptor_def fresh_cooldowns_def)
  have ca: "classifyAction literal_engine (ic_policy sample_interceptor) confirm_button =
              Some confirm_info"
    by (simp add: pol classifyAction_confirm_button)
  define form_info where "form_info =
     \<lparr>ai_kind = ''MERGE_NOW'', ai_mergeMethod = detectMergeMethod merge_form ''MERGE_NOW'',
      ai_intentTiming = ''now'', ai_element = merge_form, ai_accessibleName = ''Merge form''\<rparr>"
  have sc: "isInScope (Some getFallbackPolicy) merge_form"
    by (simp add: isInScope_def getCheckpointMatchers_def getFallbackPolicy_def merge_form_def
        in_merge_box_def)
  have ac: "is_infix ''merge'' (str_or (el_form_action merge_form) [])"
    by (simp add: merge_form_def str_or_def)
  have cf: "classifyForm (ic_policy sample_interceptor) merge_form = Some form_info"
    unfolding classifyForm_def pol form_info_def using sc ac by (simp add: Let_def)
  from gated_event_suppressed_after_token_lookup
         [where ic = sample_interceptor and now = 2000 and el = confirm_button
            and rx = literal_engine and info = confirm_info and later = 9000
            and events = "[Clicked OnAbort]"] si nt ca
  have 1: "fst (handleClick literal_engine 2000 9000 [Clicked OnAbort] (Some confirm_button)
                  sample_interceptor) =
             Await ''hasValidToken'' # PreventDefault # StopImmediatePropagation #
               fst (handleCheckpoint 2000 9000 [Clicked OnAbort] confirm_info confirm_button
                      sample_interceptor)"
    and 2: "\<not> suppressed_before_suspension
       (fst (handleClick literal_engine 2000 9000 [Clicked OnAbort] (Some confirm_button)
               sample_interceptor))"
    by blast+
  from gated_event_suppressed_after_token_lookup
         [where ic = sample_interceptor and now = 2000 and el = merge_form
            and info = form_info and later = 9000 and events = "[Clicked OnAbort]"] si nt cf
  have 3: "fst (handleSubmit 2000 9000 [Clicked OnAbort] merge_form sample_interceptor) =
             Await ''hasValidToken'' # PreventDefault # StopImmediatePropagation #
               fst (handleCheckpoint 2000 9000 [Clicked OnAbort] form_info merge_form
                      sample_interceptor)"
    and 4: "\<not> suppressed_before_suspension
       (fst (handleSubmit 2000 9000 [Clicked OnAbort] merge_form sample_interceptor))"
    by blast+
  have 5: "map_option ai_kind (classifyForm (ic_policy sample_interceptor) merge_form) =
             Some ''MERGE_NOW''"
    by (simp add: cf form_info_def)
  have 6: "take 3 (fst (handleClick literal_engine 2000 9000 [Clicked OnAbort]
                     (Some confirm_button) sample_interceptor)) =
             [Await ''hasValidToken'', PreventDefault, StopImmediatePropagation]"
    unfolding 1 by (simp add: eval_nat_numeral)
  have 7: "take 3 (fst (handleSubmit 2000 9000 [Clicked OnAbort] merge_form sample_interceptor)) =
             [Await ''hasValidToken'', PreventDefault, StopImmediatePropagation]"
    unfolding 3 by (simp add: eval_nat_numeral)
  from si nt [of "getElementId confirm_button"] ca 6 2 5 7 4 show ?thesis by blast
qed


end
